theory Spec2Isabelle
  imports Complex_Main "HOL-Library.Sublist" "HOL-Library.Multiset"
begin

section \<open>Column values\<close>

text \<open>
  The columns of the datacheck tables are numpy floating-point arrays. A value is modelled
  as a real number or one of the three special values of IEEE arithmetic. Finite values are
  computed exactly (no rounding, no overflow, one unsigned zero); the special values
  follow IEEE: every comparison with \<open>NaN\<close> is false, \<open>x / 0\<close> is an infinity or \<open>NaN\<close>.
\<close>

datatype fval = Fin real | PInf | NInf | NaN

fun flt :: "fval \<Rightarrow> fval \<Rightarrow> bool" where
  "flt NaN _ = False"
| "flt _ NaN = False"
| "flt (Fin a) (Fin b) = (a < b)"
| "flt (Fin a) PInf = True"
| "flt (Fin a) NInf = False"
| "flt PInf _ = False"
| "flt NInf NInf = False"
| "flt NInf _ = True"

definition fgt :: "fval \<Rightarrow> fval \<Rightarrow> bool" where
  "fgt a b = flt b a"

fun fneg :: "fval \<Rightarrow> fval" where
  "fneg (Fin a) = Fin (- a)"
| "fneg PInf = NInf"
| "fneg NInf = PInf"
| "fneg NaN = NaN"

fun fadd :: "fval \<Rightarrow> fval \<Rightarrow> fval" where
  "fadd NaN _ = NaN"
| "fadd _ NaN = NaN"
| "fadd (Fin a) (Fin b) = Fin (a + b)"
| "fadd (Fin a) v = v"
| "fadd PInf NInf = NaN"
| "fadd NInf PInf = NaN"
| "fadd v _ = v"

definition fsub :: "fval \<Rightarrow> fval \<Rightarrow> fval" where
  "fsub a b = fadd a (fneg b)"

text \<open>The infinity with the sign of \<open>s\<close>; \<open>NaN\<close> for \<open>s = 0\<close> (as in \<open>inf * 0\<close> and \<open>0 / 0\<close>).\<close>

definition signed_inf :: "real \<Rightarrow> fval" where
  "signed_inf s = (if 0 < s then PInf else if s < 0 then NInf else NaN)"

fun fmul :: "fval \<Rightarrow> fval \<Rightarrow> fval" where
  "fmul NaN _ = NaN"
| "fmul _ NaN = NaN"
| "fmul (Fin a) (Fin b) = Fin (a * b)"
| "fmul (Fin a) PInf = signed_inf a"
| "fmul (Fin a) NInf = signed_inf (- a)"
| "fmul PInf (Fin b) = signed_inf b"
| "fmul NInf (Fin b) = signed_inf (- b)"
| "fmul PInf PInf = PInf"
| "fmul NInf NInf = PInf"
| "fmul PInf NInf = NInf"
| "fmul NInf PInf = NInf"

fun fdiv :: "fval \<Rightarrow> fval \<Rightarrow> fval" where
  "fdiv NaN _ = NaN"
| "fdiv _ NaN = NaN"
| "fdiv (Fin a) (Fin b) = (if b = 0 then signed_inf a else Fin (a / b))"
| "fdiv (Fin a) _ = Fin 0"
| "fdiv PInf (Fin b) = (if 0 \<le> b then PInf else NInf)"
| "fdiv NInf (Fin b) = (if 0 \<le> b then NInf else PInf)"
| "fdiv _ _ = NaN"

fun fsqrt :: "fval \<Rightarrow> fval" where
  "fsqrt (Fin a) = (if a < 0 then NaN else Fin (sqrt a))"
| "fsqrt PInf = PInf"
| "fsqrt v = NaN"

fun isfinite :: "fval \<Rightarrow> bool" where
  "isfinite (Fin a) = True"
| "isfinite v = False"

fun isnan :: "fval \<Rightarrow> bool" where
  "isnan NaN = True"
| "isnan v = False"

section \<open>Vectorised operations on columns\<close>

text \<open>
  A table is a list of rows; \<open>table['name']\<close> is the column of that field. The numpy
  operators work element by element on columns of one length.
\<close>

definition col :: "('r \<Rightarrow> 'a) \<Rightarrow> 'r list \<Rightarrow> 'a list" where
  "col f tbl = map f tbl"

definition vmul :: "fval list \<Rightarrow> fval list \<Rightarrow> fval list" where
  "vmul xs ys = map2 fmul xs ys"

definition vdiv :: "fval list \<Rightarrow> fval list \<Rightarrow> fval list" where
  "vdiv xs ys = map2 fdiv xs ys"

definition vlt :: "fval list \<Rightarrow> fval \<Rightarrow> bool list" where
  "vlt xs c = map (\<lambda>x. flt x c) xs"

definition vgt :: "fval list \<Rightarrow> fval \<Rightarrow> bool list" where
  "vgt xs c = map (\<lambda>x. fgt x c) xs"

definition vand :: "bool list \<Rightarrow> bool list \<Rightarrow> bool list" where
  "vand a b = map2 (\<and>) a b"

definition vnot :: "bool list \<Rightarrow> bool list" where
  "vnot a = map Not a"

definition np_isfinite :: "fval list \<Rightarrow> bool list" where
  "np_isfinite xs = map isfinite xs"

definition np_isnan :: "fval list \<Rightarrow> bool list" where
  "np_isnan xs = map isnan xs"

definition np_where :: "bool list \<Rightarrow> fval \<Rightarrow> fval list \<Rightarrow> fval list" where
  "np_where c a ys = map2 (\<lambda>b y. if b then a else y) c ys"

text \<open>\<open>np.rad2deg(x)\<close> is \<open>x * (180 / pi)\<close>.\<close>

definition np_rad2deg :: "fval list \<Rightarrow> fval list" where
  "np_rad2deg xs = map (\<lambda>x. fmul x (Fin (180 / pi))) xs"

definition np_sum :: "fval list \<Rightarrow> fval" where
  "np_sum xs = foldl fadd (Fin 0) xs"

text \<open>
  \<open>mask.sum()\<close> of a boolean array counts its true entries.
\<close>

definition mask_sum :: "bool list \<Rightarrow> nat" where
  "mask_sum m = length (filter id m)"

text \<open>
  \<open>x[mask]\<close> keeps the entries of \<open>x\<close> at the true positions of \<open>mask\<close>. numpy raises
  IndexError unless the mask has the length of \<open>x\<close>; \<open>select\<close> is the selection itself,
  used directly where the mask was computed from the columns of the same table.
\<close>

datatype error = IndexError | ValueError | OverflowError | TimestampOutOfRange | NoSuchNodeError

definition select :: "'a list \<Rightarrow> bool list \<Rightarrow> 'a list" where
  "select xs m = map fst (filter snd (zip xs m))"

definition bool_index :: "'a list \<Rightarrow> bool list \<Rightarrow> error + 'a list" where
  "bool_index xs m = (if length m = length xs then Inr (select xs m) else Inl IndexError)"

text \<open>
  \<open>np.std(x)\<close>: the square root of the mean squared deviation from the mean. On an empty
  array the mean is \<open>0 / 0\<close>, so the result is \<open>NaN\<close>.
\<close>

definition np_mean :: "fval list \<Rightarrow> fval" where
  "np_mean xs = fdiv (np_sum xs) (Fin (real (length xs)))"

definition np_std :: "fval list \<Rightarrow> fval" where
  "np_std xs =
     (let mu = np_mean xs;
          dev = map (\<lambda>x. fsub x mu) xs
      in fsqrt (np_mean (map (\<lambda>d. fmul d d) dev)))"

section \<open>The datacheck tables\<close>

text \<open>
  The columns of \<open>runsummary\<close> (one row per run) that the selection reads. The other
  columns of the table are only plotted.
\<close>

record run_row =
  runnumber :: int
  time :: fval
  elapsed_time :: fval
  mean_ra :: fval
  mean_dec :: fval
  min_altitude :: fval
  num_cosmics :: fval
  num_pedestals :: fval
  num_flatfield :: fval
  ped_charge_stddev :: fval
  cosmics_fraction_pulses_above10 :: fval
  cosmics_fraction_pulses_above30 :: fval

text \<open>
  The tables \<open>cosmics\<close>, \<open>flatfield\<close> and \<open>pedestals\<close> have one row per subrun, for the
  events of one type.
\<close>

record sub_row =
  sub_runnumber :: int
  events :: fval
  sub_elapsed_time :: fval
  fraction_pulses_above10 :: fval
  fraction_pulses_above30 :: fval

text \<open>\<open>pixwise_runsummary\<close> has one row per run; the notebook never reads its columns.\<close>

record pix_row =
  pix_runnumber :: int

text \<open>
  What the notebook takes from astropy and astroplan: the angular separation in degrees
  between the source and a pointing (right ascension, declination in degrees), and the
  altitude of the moon in degrees and its illuminated fraction at a UTC time. A time is
  a \<open>datetime\<close>, counted in microseconds since 1970-01-01 00:00:00.
\<close>

record astro =
  separation :: "fval \<Rightarrow> fval \<Rightarrow> fval"
  moon_alt :: "int \<Rightarrow> fval"
  moon_illumination :: "int \<Rightarrow> fval"

section \<open>The selection masks\<close>

definition ped_ok_mask :: "run_row list \<Rightarrow> bool list" where
  "ped_ok_mask tbl = np_isfinite (col num_pedestals tbl)"

definition angular_distance :: "astro \<Rightarrow> run_row list \<Rightarrow> fval list" where
  "angular_distance lib tbl =
     map2 (separation lib) (col mean_ra tbl) (col mean_dec tbl)"

definition source_mask :: "astro \<Rightarrow> run_row list \<Rightarrow> bool list" where
  "source_mask lib tbl =
     vand (vgt (angular_distance lib tbl) (Fin 0.35))
          (vlt (angular_distance lib tbl) (Fin 0.45))"

definition min_zenith :: fval where
  "min_zenith = Fin 0"

definition max_zenith :: fval where
  "max_zenith = Fin 35"

definition zenith :: "run_row list \<Rightarrow> fval list" where
  "zenith tbl =
     map (\<lambda>d. fsub (Fin 90) d) (np_rad2deg (col min_altitude tbl))"

definition zenith_mask :: "run_row list \<Rightarrow> bool list" where
  "zenith_mask tbl =
     vand (vlt (zenith tbl) max_zenith)
          (vgt (zenith tbl) min_zenith)"

definition max_ped_std :: fval where
  "max_ped_std = Fin 2"

definition ped_std_cut :: "run_row list \<Rightarrow> bool list" where
  "ped_std_cut tbl = vlt (col ped_charge_stddev tbl) max_ped_std"

definition rate_cosmics :: "run_row list \<Rightarrow> fval list" where
  "rate_cosmics tbl =
     vdiv (col num_cosmics tbl) (col elapsed_time tbl)"

definition rate_mask :: "run_row list \<Rightarrow> bool list" where
  "rate_mask tbl = vgt (rate_cosmics tbl) (Fin 3000)"

definition rate10_mask :: "run_row list \<Rightarrow> bool list" where
  "rate10_mask tbl =
     vgt (vdiv (vmul (col cosmics_fraction_pulses_above10 tbl)
                     (col num_cosmics tbl))
               (col elapsed_time tbl))
         (Fin 25)"

definition rate30_mask :: "run_row list \<Rightarrow> bool list" where
  "rate30_mask tbl =
     vgt (vdiv (vmul (col cosmics_fraction_pulses_above30 tbl)
                     (col num_cosmics tbl))
               (col elapsed_time tbl))
         (Fin 4.5)"

definition pix_rate_mask :: "run_row list \<Rightarrow> bool list" where
  "pix_rate_mask tbl =
     vand (rate10_mask tbl) (rate30_mask tbl)"

text \<open>
  The mask of the cell "Final list of selected runs by date":
  \<open>source_mask & zenith_mask & ped_ok_mask & ped_std_cut & rate_mask & pix_rate_mask\<close>.
\<close>

definition final_mask :: "astro \<Rightarrow> run_row list \<Rightarrow> bool list" where
  "final_mask lib tbl =
     vand (vand (vand (vand (vand (source_mask lib tbl)
                                  (zenith_mask tbl))
                            (ped_ok_mask tbl))
                      (ped_std_cut tbl))
                (rate_mask tbl))
          (pix_rate_mask tbl)"

section \<open>Reporting\<close>

text \<open>
  The format of a number in a printed line; \<open>:.2f\<close> is \<open>Fixed 2\<close>. A line holds the value
  that is formatted and its format: the digits that the format makes of a floating-point
  value are not modelled.
\<close>

datatype number_format = Fixed nat

text \<open>
  The text of an array of run numbers, from \<open>np.array2string\<close> or from printing the array.
  The notebook leaves numpy's print options at their defaults: an array of more than 1000
  elements (\<open>threshold\<close>) is summarized to its first three and its last three elements
  (\<open>edgeitems\<close>), with \<open>...\<close> between them.
\<close>

datatype array_text = Full "int list" | Summarized "int list" "int list"

definition array2string :: "int list \<Rightarrow> array_text" where
  "array2string a =
     (if 1000 < length a then Summarized (take 3 a) (drop (length a - 3) a) else Full a)"

text \<open>
  What a cell prints, line by line: the values that are formatted, not the characters.
  A Python list, as in the lines by date, is printed whole.
\<close>

datatype out_line =
    Count_line nat
  | Time_line number_format fval
  | Blank_line
  | Runs_line array_text
  | Date_line nat int "int list"
  | Removed_line array_text
  | Skip_line string string
  | Zenith_line fval fval
  | Stars_line

text \<open>Python rounds a tie to the even neighbour.\<close>

definition round_half_even :: "real \<Rightarrow> int" where
  "round_half_even x =
     (let f = \<lfloor>x\<rfloor>; d = x - of_int f
      in if d < 1 / 2 then f else if 1 / 2 < d then f + 1 else if even f then f else f + 1)"

text \<open>
  \<open>datetime.utcfromtimestamp(t)\<close> rounds \<open>t\<close> to microseconds and raises for \<open>NaN\<close>, for an
  infinity and for a time outside the years 1 to 9999; for such a time the exception is a
  ValueError, an OverflowError or an OSError, by how far out the time is, and
  \<open>TimestampOutOfRange\<close> stands for it. A \<open>date\<close> is counted in days since 1970-01-01,
  which orders dates as the calendar does.
\<close>

definition datetime_min :: int where
  "datetime_min = - 719162 * 86400000000"

definition datetime_max :: int where
  "datetime_max = 2932897 * 86400000000 - 1"

fun utcfromtimestamp :: "fval \<Rightarrow> error + int" where
  "utcfromtimestamp NaN = Inl ValueError"
| "utcfromtimestamp PInf = Inl OverflowError"
| "utcfromtimestamp NInf = Inl OverflowError"
| "utcfromtimestamp (Fin t) =
     (let us = round_half_even (t * 1000000)
      in if datetime_min \<le> us \<and> us \<le> datetime_max then Inr us
         else Inl TimestampOutOfRange)"

definition date :: "int \<Rightarrow> int" where
  "date us = us div 86400000000"

text \<open>\<open>[datetime.utcfromtimestamp(t-0.5*86400).date() for t in ts]\<close>\<close>

fun dates_of :: "fval list \<Rightarrow> error + int list" where
  "dates_of [] = Inr []"
| "dates_of (t # ts) =
     (case utcfromtimestamp (fsub t (fmul (Fin 0.5) (Fin 86400))) of
        Inl e \<Rightarrow> Inl e
      | Inr u \<Rightarrow> (case dates_of ts of Inl e \<Rightarrow> Inl e | Inr ds \<Rightarrow> Inr (date u # ds)))"

text \<open>\<open>np.unique\<close>: the sorted distinct values.\<close>

definition np_unique :: "int list \<Rightarrow> int list" where
  "np_unique xs = remdups (sort xs)"

text \<open>The inner loop of \<open>print_runs\<close>: the runs whose date is \<open>d0\<close>.\<close>

definition runs_on :: "int list \<Rightarrow> int list \<Rightarrow> int \<Rightarrow> int list" where
  "runs_on dates runs d0 = map snd (filter (\<lambda>(d, run). d = d0) (zip dates runs))"

definition by_date_lines :: "int list \<Rightarrow> int list \<Rightarrow> out_line list" where
  "by_date_lines dates runs =
     map (\<lambda>(i, d0). Date_line (i + 1) d0 (runs_on dates runs d0)) (enumerate 0 (np_unique dates))"

text \<open>
  \<open>print_runs\<close> returns the lines printed and the exception raised, if any: the lines
  printed before an exception stay printed.
\<close>

definition print_runs :: "run_row list \<Rightarrow> bool list \<Rightarrow> bool \<Rightarrow> out_line list \<times> error option" where
  "print_runs table msk by_date =
     (let out1 = [Count_line (mask_sum msk)] in
      case bool_index (col elapsed_time table) msk of
        Inl e \<Rightarrow> (out1, Some e)
      | Inr ts \<Rightarrow>
          let out2 = out1 @ [Time_line (Fixed 2) (fdiv (np_sum ts) (Fin 3600)), Blank_line] in
          (case bool_index (col runnumber table) msk of
             Inl e \<Rightarrow> (out2, Some e)
           | Inr runs \<Rightarrow>
               let out3 = out2 @ [Runs_line (array2string runs)] in
               if \<not> by_date then (out3, None)
               else
                 let out4 = out3 @ [Blank_line, Blank_line] in
                 (case bool_index (col time table) msk of
                    Inl e \<Rightarrow> (out4, Some e)
                  | Inr tms \<Rightarrow>
                      (case dates_of tms of
                         Inl e \<Rightarrow> (out4, Some e)
                       | Inr dates \<Rightarrow> (out4 @ by_date_lines dates runs, None)))))"

section \<open>The subrun-wise stability of the pixel rates\<close>

definition run_list :: "run_row list \<Rightarrow> bool list \<Rightarrow> int list" where
  "run_list tbl msk = select (col runnumber tbl) msk"

definition runselection :: "sub_row list \<Rightarrow> int list \<Rightarrow> bool list" where
  "runselection cosm rl = map (\<lambda>r. r \<in> set rl) (col sub_runnumber cosm)"

text \<open>
  \<open>fraction\<close> is the column \<open>fraction_pulses_above{npe}\<close>, for \<open>npe\<close> 10 or 30.
\<close>

definition rate_cosmics_pulses :: "(sub_row \<Rightarrow> fval) \<Rightarrow> sub_row list \<Rightarrow> fval list" where
  "rate_cosmics_pulses fraction cosm =
     vdiv (vmul (col fraction cosm) (col events cosm)) (col sub_elapsed_time cosm)"

definition thisrun :: "sub_row list \<Rightarrow> int \<Rightarrow> bool list" where
  "thisrun cosm run = map (\<lambda>r. r = run) (col sub_runnumber cosm)"

definition run_std :: "(sub_row \<Rightarrow> fval) \<Rightarrow> sub_row list \<Rightarrow> int \<Rightarrow> fval" where
  "run_std fraction cosm run = np_std (select (rate_cosmics_pulses fraction cosm) (thisrun cosm run))"

definition std_npe :: "sub_row list \<Rightarrow> int list \<Rightarrow> fval list list" where
  "std_npe cosm rl =
     [map (run_std fraction_pulses_above10 cosm) rl, map (run_std fraction_pulses_above30 cosm) rl]"

definition max_rate30_std :: fval where
  "max_rate30_std = Fin 0.2"

text \<open>\<open>cut[runnumber == run] = False\<close>\<close>

definition clear_run :: "int list \<Rightarrow> int \<Rightarrow> bool list \<Rightarrow> bool list" where
  "clear_run runnumbers run cutv = map2 (\<lambda>r c. if r = run then False else c) runnumbers cutv"

fun pulse30_loop :: "int list \<Rightarrow> (int \<times> fval) list \<Rightarrow> bool list \<Rightarrow> bool list" where
  "pulse30_loop runnumbers [] cutv = cutv"
| "pulse30_loop runnumbers ((run, s) # rest) cutv =
     (if flt s max_rate30_std then pulse30_loop runnumbers rest cutv
      else pulse30_loop runnumbers rest (clear_run runnumbers run cutv))"

definition pulse30_std_cut :: "run_row list \<Rightarrow> sub_row list \<Rightarrow> int list \<Rightarrow> bool list" where
  "pulse30_std_cut tbl cosm rl =
     pulse30_loop (col runnumber tbl) (zip rl (std_npe cosm rl ! 1)) (replicate (length tbl) True)"

section \<open>Loading the night-wise files\<close>

text \<open>
  A night-wise file holds up to five tables; a table that is not in the file is \<open>None\<close>.
\<close>

record dc_file =
  file_name :: string
  pixwise_runsummary :: "pix_row list option"
  runsummary :: "run_row list option"
  cosmics :: "sub_row list option"
  flatfield :: "sub_row list option"
  pedestals :: "sub_row list option"

definition read_table :: "'a option \<Rightarrow> error + 'a" where
  "read_table node = (case node of None \<Rightarrow> Inl NoSuchNodeError | Some t \<Rightarrow> Inr t)"

text \<open>The five lists the loop appends to, and what it prints.\<close>

record table_lists =
  pixwise_runsummary_list :: "pix_row list list"
  runsummary_list :: "run_row list list"
  cosmics_list :: "sub_row list list"
  flatfield_list :: "sub_row list list"
  pedestals_list :: "sub_row list list"
  messages :: "out_line list"

definition no_tables :: table_lists where
  "no_tables = \<lparr>pixwise_runsummary_list = [], runsummary_list = [], cosmics_list = [],
                 flatfield_list = [], pedestals_list = [], messages = []\<rparr>"

text \<open>\<open>table['num_flatfield'] = np.where(np.isnan(table['num_flatfield']), 0, table['num_flatfield'])\<close>\<close>

definition set_num_flatfield :: "run_row list \<Rightarrow> fval list \<Rightarrow> run_row list" where
  "set_num_flatfield table vs = map2 (\<lambda>r v. r\<lparr>num_flatfield := v\<rparr>) table vs"

definition fix_num_flatfield :: "run_row list \<Rightarrow> run_row list" where
  "fix_num_flatfield table =
     set_num_flatfield table
       (np_where (np_isnan (col num_flatfield table)) (Fin 0) (col num_flatfield table))"

text \<open>One turn of the loop over \<open>datacheck_files\<close>.\<close>

definition load_file :: "dc_file \<Rightarrow> table_lists \<Rightarrow> error + table_lists" where
  "load_file file acc =
     (if pedestals file = None
      then Inr (acc\<lparr>messages := messages acc @ [Skip_line (file_name file) ''pedestals'']\<rparr>)
      else if flatfield file = None
      then Inr (acc\<lparr>messages := messages acc @ [Skip_line (file_name file) ''flatfield'']\<rparr>)
      else
        case read_table (pixwise_runsummary file) of Inl e \<Rightarrow> Inl e | Inr pix \<Rightarrow>
        case read_table (runsummary file) of Inl e \<Rightarrow> Inl e | Inr table \<Rightarrow>
        case read_table (cosmics file) of Inl e \<Rightarrow> Inl e | Inr c \<Rightarrow>
        case read_table (flatfield file) of Inl e \<Rightarrow> Inl e | Inr ff \<Rightarrow>
        case read_table (pedestals file) of Inl e \<Rightarrow> Inl e | Inr ped \<Rightarrow>
          Inr (acc\<lparr>pixwise_runsummary_list := pixwise_runsummary_list acc @ [pix],
                    runsummary_list := runsummary_list acc @ [fix_num_flatfield table],
                    cosmics_list := cosmics_list acc @ [c],
                    flatfield_list := flatfield_list acc @ [ff],
                    pedestals_list := pedestals_list acc @ [ped]\<rparr>))"

fun load_loop :: "dc_file list \<Rightarrow> table_lists \<Rightarrow> error + table_lists" where
  "load_loop [] acc = Inr acc"
| "load_loop (file # files) acc =
     (case load_file file acc of Inl e \<Rightarrow> Inl e | Inr acc' \<Rightarrow> load_loop files acc')"

text \<open>\<open>vstack\<close> puts the rows of the tables one after the other; it raises on an empty list.\<close>

definition vstack :: "'a list list \<Rightarrow> error + 'a list" where
  "vstack ts = (if ts = [] then Inl ValueError else Inr (concat ts))"

record tables =
  dcheck_pixwise_runsummary :: "pix_row list"
  dcheck_runsummary :: "run_row list"
  dcheck_cosmics :: "sub_row list"
  dcheck_flatfield :: "sub_row list"
  dcheck_pedestals :: "sub_row list"

definition stack_tables :: "table_lists \<Rightarrow> error + tables" where
  "stack_tables acc =
     (case vstack (runsummary_list acc) of Inl e \<Rightarrow> Inl e | Inr rs \<Rightarrow>
      case vstack (cosmics_list acc) of Inl e \<Rightarrow> Inl e | Inr c \<Rightarrow>
      case vstack (pixwise_runsummary_list acc) of Inl e \<Rightarrow> Inl e | Inr pix \<Rightarrow>
      case vstack (flatfield_list acc) of Inl e \<Rightarrow> Inl e | Inr ff \<Rightarrow>
      case vstack (pedestals_list acc) of Inl e \<Rightarrow> Inl e | Inr ped \<Rightarrow>
        Inr \<lparr>dcheck_pixwise_runsummary = pix, dcheck_runsummary = rs, dcheck_cosmics = c,
             dcheck_flatfield = ff, dcheck_pedestals = ped\<rparr>)"

definition load_tables :: "dc_file list \<Rightarrow> error + tables" where
  "load_tables datacheck_files =
     (case load_loop datacheck_files no_tables of
        Inl e \<Rightarrow> Inl e
      | Inr acc \<Rightarrow> stack_tables acc)"

text \<open>
  The moon cells: \<open>utctime\<close> is the list of the runs' times as \<open>datetime\<close>,
  \<open>no_moon\<close> says where the moon is below the horizon, \<open>moon_fraction\<close> is the
  illuminated fraction. The notebook plots them; no mask of a \<open>print_runs\<close> call
  contains them.
\<close>

fun utctime :: "fval list \<Rightarrow> error + int list" where
  "utctime [] = Inr []"
| "utctime (x # xs) =
     (case utcfromtimestamp x of
        Inl e \<Rightarrow> Inl e
      | Inr u \<Rightarrow> (case utctime xs of Inl e \<Rightarrow> Inl e | Inr us \<Rightarrow> Inr (u # us)))"

definition no_moon :: "astro \<Rightarrow> int list \<Rightarrow> bool list" where
  "no_moon lib ut = vlt (map (moon_alt lib) ut) (Fin 0)"

definition moon_fraction :: "astro \<Rightarrow> int list \<Rightarrow> fval list" where
  "moon_fraction lib ut = map (moon_illumination lib) ut"

definition moon_fraction_limit :: fval where
  "moon_fraction_limit = Fin 0.2"

text \<open>The cell "Final list of selected runs by date".\<close>

definition final_cell :: "astro \<Rightarrow> run_row list \<Rightarrow> out_line list \<times> error option" where
  "final_cell lib tbl = print_runs tbl (final_mask lib tbl) True"

section \<open>The filters, row by row\<close>

text \<open>
  The conditions of the filters as the specification words them, on one run: the derived
  quantities of a row, and the threshold each is compared with.
\<close>

definition distance_deg :: "astro \<Rightarrow> run_row \<Rightarrow> fval" where
  "distance_deg lib r = separation lib (mean_ra r) (mean_dec r)"

definition zenith_deg :: "run_row \<Rightarrow> fval" where
  "zenith_deg r = fsub (Fin 90) (fmul (min_altitude r) (Fin (180 / pi)))"

definition cosmics_rate :: "run_row \<Rightarrow> fval" where
  "cosmics_rate r = fdiv (num_cosmics r) (elapsed_time r)"

definition pulse_rate :: "(run_row \<Rightarrow> fval) \<Rightarrow> run_row \<Rightarrow> fval" where
  "pulse_rate fraction r = fdiv (fmul (fraction r) (num_cosmics r)) (elapsed_time r)"

definition row_source :: "astro \<Rightarrow> run_row \<Rightarrow> bool" where
  "row_source lib r = (flt (Fin 0.35) (distance_deg lib r) \<and> flt (distance_deg lib r) (Fin 0.45))"

definition row_zenith :: "run_row \<Rightarrow> bool" where
  "row_zenith r = (flt (Fin 0) (zenith_deg r) \<and> flt (zenith_deg r) (Fin 35))"

definition row_ped_ok :: "run_row \<Rightarrow> bool" where
  "row_ped_ok r = isfinite (num_pedestals r)"

definition row_ped_std :: "run_row \<Rightarrow> bool" where
  "row_ped_std r = flt (ped_charge_stddev r) (Fin 2)"

definition row_rate :: "run_row \<Rightarrow> bool" where
  "row_rate r = flt (Fin 3000) (cosmics_rate r)"

definition row_pix_rate :: "run_row \<Rightarrow> bool" where
  "row_pix_rate r =
     (flt (Fin 25) (pulse_rate cosmics_fraction_pulses_above10 r) \<and>
      flt (Fin 4.5) (pulse_rate cosmics_fraction_pulses_above30 r))"

definition row_selected :: "astro \<Rightarrow> run_row \<Rightarrow> bool" where
  "row_selected lib r =
     (row_source lib r \<and> row_zenith r \<and> row_ped_ok r \<and> row_ped_std r \<and> row_rate r \<and>
      row_pix_rate r)"

text \<open>
  The run-number lines among the printed lines, and the run numbers that can be read in the
  printed lines: those of a run-number line, all or the first and last three, and those
  of the lines by date.
\<close>

fun printed_runs :: "out_line list \<Rightarrow> array_text list" where
  "printed_runs [] = []"
| "printed_runs (Runs_line a # out) = a # printed_runs out"
| "printed_runs (l # out) = printed_runs out"

fun array_items :: "array_text \<Rightarrow> int list" where
  "array_items (Full a) = a"
| "array_items (Summarized front back) = front @ back"

fun shown_runs :: "out_line list \<Rightarrow> int list" where
  "shown_runs [] = []"
| "shown_runs (Runs_line a # out) = array_items a @ shown_runs out"
| "shown_runs (Date_line i d rr # out) = rr @ shown_runs out"
| "shown_runs (l # out) = shown_runs out"

section \<open>Example data\<close>

text \<open>
  A run on the Crab nebula at 60 degrees of altitude, with 5000 cosmics per second, and
  an astronomy library that puts every pointing at 0.4 degrees from the source and the moon
  at 30 degrees above the horizon, 90 percent illuminated.
\<close>

definition demo_astro :: astro where
  "demo_astro = \<lparr>separation = (\<lambda>ra dec. Fin 0.4), moon_alt = (\<lambda>u. Fin 30),
                  moon_illumination = (\<lambda>u. Fin 0.9)\<rparr>"

definition demo_run :: run_row where
  "demo_run = \<lparr>runnumber = 2965, time = Fin 1605920000, elapsed_time = Fin 1200,
     mean_ra = Fin 83.96, mean_dec = Fin 22.25, min_altitude = Fin (pi / 3),
     num_cosmics = Fin 6000000, num_pedestals = Fin 120000, num_flatfield = Fin 120000,
     ped_charge_stddev = Fin 1.5, cosmics_fraction_pulses_above10 = Fin 0.01,
     cosmics_fraction_pulses_above30 = Fin 0.001\<rparr>"

section \<open>The reporting steps\<close>

text \<open>The masks of the \<open>print_runs\<close> calls of the notebook, in the order of the cells.\<close>

definition report_masks :: "astro \<Rightarrow> run_row list \<Rightarrow> bool list list" where
  "report_masks lib tbl =
     [source_mask lib tbl,
      vand (vand (source_mask lib tbl) (zenith_mask tbl)) (ped_ok_mask tbl),
      vand (vand (vand (source_mask lib tbl) (zenith_mask tbl)) (ped_ok_mask tbl)) (ped_std_cut tbl),
      vand (vand (vand (vand (source_mask lib tbl) (zenith_mask tbl)) (ped_ok_mask tbl))
                 (ped_std_cut tbl)) (rate_mask tbl),
      vand (vand (vand (vand (source_mask lib tbl) (zenith_mask tbl)) (ped_ok_mask tbl))
                 (ped_std_cut tbl)) (rate_mask tbl),
      vand (vand (vand (vand (vand (source_mask lib tbl) (zenith_mask tbl)) (ped_ok_mask tbl))
                 (ped_std_cut tbl)) (rate_mask tbl)) (pix_rate_mask tbl),
      final_mask lib tbl]"

section \<open>Order of the masks and the stability cut\<close>

text \<open>\<open>a >= b\<close> on column values, for "at least".\<close>

definition fge :: "fval \<Rightarrow> fval \<Rightarrow> bool" where
  "fge a b = (flt b a \<or> (a = b \<and> \<not> isnan a))"

text \<open>
  \<open>m1 & m2 & ... & mn\<close>, for the masks of a list in the order of the list (on no mask
  at all, which Python cannot write, the empty array).
\<close>

fun vand_list :: "bool list list \<Rightarrow> bool list" where
  "vand_list [] = []"
| "vand_list (m # ms) = foldl vand m ms"

text \<open>
  The seven masks of the notebook; the last is \<open>pulse30_std_cut\<close> as the notebook
  computes it, from the run list of the final mask.
\<close>

definition selection_masks :: "astro \<Rightarrow> run_row list \<Rightarrow> sub_row list \<Rightarrow> bool list list" where
  "selection_masks lib tbl cosm =
     [source_mask lib tbl, zenith_mask tbl, ped_ok_mask tbl, ped_std_cut tbl, rate_mask tbl,
      pix_rate_mask tbl, pulse30_std_cut tbl cosm (run_list tbl (final_mask lib tbl))]"

text \<open>
  A second run, of the next night, with a pedestal noise of 3 p.e., and subrun-wise tables: in
  \<open>demo_cosmics\<close> the rate of pulses above 30 p.e. of run 2965 is 5 per second in its one
  subrun, that of run 2966 is 0 and 1 in its two subruns; in \<open>demo_nan_cosmics\<close> the
  fraction of pulses above 30 p.e. of the one subrun of run 2965 is \<open>NaN\<close>. Then a table
  of 1001 rows like the first run, numbered 1 to 1001, and the first run with no time.
\<close>

definition demo_noisy_run :: run_row where
  "demo_noisy_run =
     demo_run\<lparr>runnumber := 2966, time := Fin 1606006400, ped_charge_stddev := Fin 3\<rparr>"

definition demo_table :: "run_row list" where
  "demo_table = [demo_run, demo_noisy_run]"

definition demo_cosmics :: "sub_row list" where
  "demo_cosmics =
     [\<lparr>sub_runnumber = 2965, events = Fin 50000, sub_elapsed_time = Fin 10,
       fraction_pulses_above10 = Fin 0.01, fraction_pulses_above30 = Fin 0.001\<rparr>,
      \<lparr>sub_runnumber = 2966, events = Fin 50000, sub_elapsed_time = Fin 10,
       fraction_pulses_above10 = Fin 0.01, fraction_pulses_above30 = Fin 0\<rparr>,
      \<lparr>sub_runnumber = 2966, events = Fin 50000, sub_elapsed_time = Fin 10,
       fraction_pulses_above10 = Fin 0.01, fraction_pulses_above30 = Fin 0.0002\<rparr>]"



definition demo_nan_cosmics :: "sub_row list" where
  "demo_nan_cosmics =
     [\<lparr>sub_runnumber = 2965, events = Fin 50000, sub_elapsed_time = Fin 10,
       fraction_pulses_above10 = Fin 0.01, fraction_pulses_above30 = NaN\<rparr>]"

section \<open>The date of a run\<close>

text \<open>
  The UTC date of a timestamp minus half a day, as \<open>print_runs\<close> takes it; \<open>None\<close> where
  \<open>utcfromtimestamp\<close> raises.
\<close>

definition utc_date :: "fval \<Rightarrow> int option" where
  "utc_date t =
     (case utcfromtimestamp (fsub t (Fin 43200)) of Inl e \<Rightarrow> None | Inr u \<Rightarrow> Some (date u))"

text \<open>
  The lines of \<open>print_runs\<close> as the claim words them, for the masked rows: the number of
  runs, the observation time, an empty line and the run numbers; and, for a list of dates,
  the numbered lines by date, each with the runs of the masked rows of that date.
\<close>

definition header_lines :: "run_row list \<Rightarrow> out_line list" where
  "header_lines rows =
     [Count_line (length rows),
      Time_line (Fixed 2) (fdiv (np_sum (map elapsed_time rows)) (Fin 3600)),
      Blank_line,
      Runs_line (array2string (map runnumber rows))]"

definition date_lines :: "run_row list \<Rightarrow> int list \<Rightarrow> out_line list" where
  "date_lines rows ds =
     map (\<lambda>(i, d). Date_line (i + 1) d
            (map runnumber (filter (\<lambda>r. utc_date (time r) = Some d) rows)))
         (enumerate 0 ds)"

section \<open>The loaded files\<close>

text \<open>
  A file is skipped when it lacks the pedestals or the flatfield table; the loop loads the
  others. A loaded file is complete when its three other tables are there; \<open>read_table\<close>
  raises otherwise.
\<close>

definition file_skipped :: "dc_file \<Rightarrow> bool" where
  "file_skipped file = (pedestals file = None \<or> flatfield file = None)"

definition loaded_files :: "dc_file list \<Rightarrow> dc_file list" where
  "loaded_files files = filter (\<lambda>f. \<not> file_skipped f) files"

definition file_complete :: "dc_file \<Rightarrow> bool" where
  "file_complete file =
     (pixwise_runsummary file \<noteq> None \<and> runsummary file \<noteq> None \<and> cosmics file \<noteq> None)"

text \<open>What the loop prints for a file.\<close>

definition skip_message :: "dc_file \<Rightarrow> out_line list" where
  "skip_message file =
     (if pedestals file = None then [Skip_line (file_name file) ''pedestals'']
      else if flatfield file = None then [Skip_line (file_name file) ''flatfield'']
      else [])"

text \<open>The replacement of \<open>NaN\<close> by 0 in \<open>num_flatfield\<close>, on one row.\<close>

definition zero_nan_flatfield :: "run_row \<Rightarrow> run_row" where
  "zero_nan_flatfield r =
     r\<lparr>num_flatfield := (if isnan (num_flatfield r) then Fin 0 else num_flatfield r)\<rparr>"

text \<open>
  Example files: a night with the two example runs, where the first has no flatfield
  events (\<open>NaN\<close>); a file of another name with the same content; and a night without the
  pedestals table.
\<close>

definition demo_file :: dc_file where
  "demo_file =
     \<lparr>file_name = ''DL1_datacheck_20201120.h5'',
      pixwise_runsummary = Some [\<lparr>pix_runnumber = 2965\<rparr>, \<lparr>pix_runnumber = 2966\<rparr>],
      runsummary = Some [demo_run\<lparr>num_flatfield := NaN\<rparr>, demo_noisy_run],
      cosmics = Some demo_cosmics,
      flatfield = Some [],
      pedestals = Some demo_cosmics\<rparr>"

definition demo_copy_file :: dc_file where
  "demo_copy_file = demo_file\<lparr>file_name := ''DL1_datacheck_20201121.h5''\<rparr>"

definition demo_skipped_file :: dc_file where
  "demo_skipped_file =
     \<lparr>file_name = ''DL1_datacheck_20201122.h5'',
      pixwise_runsummary = Some [\<lparr>pix_runnumber = 2970\<rparr>],
      runsummary = Some [demo_run\<lparr>runnumber := 2970\<rparr>],
      cosmics = Some [],
      flatfield = Some [],
      pedestals = None\<rparr>"

text \<open>
  The lists after the loop over \<open>files\<close>, and the tables stacked from them, in closed
  form.
\<close>

definition appended :: "table_lists \<Rightarrow> dc_file list \<Rightarrow> table_lists" where
  "appended acc files =
     acc\<lparr>pixwise_runsummary_list :=
            pixwise_runsummary_list acc @ map (\<lambda>f. the (pixwise_runsummary f)) (loaded_files files),
          runsummary_list :=
            runsummary_list acc @ map (\<lambda>f. fix_num_flatfield (the (runsummary f))) (loaded_files files),
          cosmics_list := cosmics_list acc @ map (\<lambda>f. the (cosmics f)) (loaded_files files),
          flatfield_list := flatfield_list acc @ map (\<lambda>f. the (flatfield f)) (loaded_files files),
          pedestals_list := pedestals_list acc @ map (\<lambda>f. the (pedestals f)) (loaded_files files),
          messages := messages acc @ concat (map skip_message files)\<rparr>"

definition stacked :: "dc_file list \<Rightarrow> tables" where
  "stacked files =
     \<lparr>dcheck_pixwise_runsummary = concat (map (\<lambda>f. the (pixwise_runsummary f)) (loaded_files files)),
      dcheck_runsummary = concat (map (\<lambda>f. fix_num_flatfield (the (runsummary f))) (loaded_files files)),
      dcheck_cosmics = concat (map (\<lambda>f. the (cosmics f)) (loaded_files files)),
      dcheck_flatfield = concat (map (\<lambda>f. the (flatfield f)) (loaded_files files)),
      dcheck_pedestals = concat (map (\<lambda>f. the (pedestals f)) (loaded_files files))\<rparr>"

section \<open>The notebook as state and cells\<close>

text \<open>
  The state of the kernel after loading: the five tables and the global variables that the
  cells assign (\<open>v_x\<close> is the variable \<open>x\<close>), with what has been printed. A variable holds
  the empty array until its cell has run. A cell takes the state to the state after it and
  the exception it raised, if any; what it assigned and printed before the exception stays.
  Statements that only draw a plot are left out; the cells that assign \<open>mask\<close> for a plot
  are there.
\<close>

record nb = tables +
  v_ped_ok_mask :: "bool list"
  v_angular_distance :: "fval list"
  v_source_mask :: "bool list"
  v_zenith_mask :: "bool list"
  v_utctime :: "int list"
  v_no_moon :: "bool list"
  v_moon_fraction :: "fval list"
  v_ped_std_cut :: "bool list"
  v_rate_cosmics :: "fval list"
  v_rate_mask :: "bool list"
  v_rate10_mask :: "bool list"
  v_rate30_mask :: "bool list"
  v_pix_rate_mask :: "bool list"
  v_mask :: "bool list"
  v_run_list :: "int list"
  v_runselection :: "bool list"
  v_std_npe :: "fval list list"
  v_pulse30_std_cut :: "bool list"
  stdout :: "out_line list"

definition loaded :: "tables \<Rightarrow> nb" where
  "loaded T =
     \<lparr>dcheck_pixwise_runsummary = dcheck_pixwise_runsummary T,
      dcheck_runsummary = dcheck_runsummary T,
      dcheck_cosmics = dcheck_cosmics T,
      dcheck_flatfield = dcheck_flatfield T,
      dcheck_pedestals = dcheck_pedestals T,
      v_ped_ok_mask = [], v_angular_distance = [], v_source_mask = [], v_zenith_mask = [],
      v_utctime = [], v_no_moon = [], v_moon_fraction = [], v_ped_std_cut = [],
      v_rate_cosmics = [], v_rate_mask = [], v_rate10_mask = [], v_rate30_mask = [],
      v_pix_rate_mask = [], v_mask = [], v_run_list = [], v_runselection = [], v_std_npe = [],
      v_pulse30_std_cut = [], stdout = []\<rparr>"

definition the_tables :: "nb \<Rightarrow> tables" where
  "the_tables s =
     \<lparr>dcheck_pixwise_runsummary = dcheck_pixwise_runsummary s,
      dcheck_runsummary = dcheck_runsummary s,
      dcheck_cosmics = dcheck_cosmics s,
      dcheck_flatfield = dcheck_flatfield s,
      dcheck_pedestals = dcheck_pedestals s\<rparr>"

text \<open>Printing adds lines to the output; the table is only read.\<close>

definition say :: "nb \<Rightarrow> out_line list \<times> error option \<Rightarrow> nb \<times> error option" where
  "say s p = (s\<lparr>stdout := stdout s @ fst p\<rparr>, snd p)"

definition mask_pointing :: "nb \<Rightarrow> bool list" where
  "mask_pointing s = vand (vand (v_source_mask s) (v_zenith_mask s)) (v_ped_ok_mask s)"

definition mask_noise :: "nb \<Rightarrow> bool list" where
  "mask_noise s = vand (mask_pointing s) (v_ped_std_cut s)"

definition mask_rate :: "nb \<Rightarrow> bool list" where
  "mask_rate s = vand (mask_noise s) (v_rate_mask s)"

definition mask_selection :: "nb \<Rightarrow> bool list" where
  "mask_selection s = vand (mask_rate s) (v_pix_rate_mask s)"

definition cell_ped_ok :: "nb \<Rightarrow> nb \<times> error option" where
  "cell_ped_ok s =
     (let s1 = s\<lparr>v_ped_ok_mask := np_isfinite (col num_pedestals (dcheck_runsummary s))\<rparr> in
      case bool_index (col runnumber (dcheck_runsummary s1)) (vnot (v_ped_ok_mask s1)) of
        Inl e \<Rightarrow> (s1, Some e)
      | Inr rs \<Rightarrow> (s1\<lparr>stdout := stdout s1 @ [Removed_line (array2string rs)]\<rparr>, None))"

definition cell_source :: "astro \<Rightarrow> nb \<Rightarrow> nb \<times> error option" where
  "cell_source lib s =
     (let s1 = s\<lparr>v_angular_distance := angular_distance lib (dcheck_runsummary s)\<rparr>;
          s2 = s1\<lparr>v_source_mask := vand (vgt (v_angular_distance s1) (Fin 0.35))
                                        (vlt (v_angular_distance s1) (Fin 0.45))\<rparr>
      in say s2 (print_runs (dcheck_runsummary s2) (v_source_mask s2) False))"

definition cell_zenith :: "nb \<Rightarrow> nb \<times> error option" where
  "cell_zenith s =
     (s\<lparr>v_zenith_mask := zenith_mask (dcheck_runsummary s),
        stdout := stdout s @ [Zenith_line min_zenith max_zenith]\<rparr>, None)"

definition cell_report_pointing :: "nb \<Rightarrow> nb \<times> error option" where
  "cell_report_pointing s = say s (print_runs (dcheck_runsummary s) (mask_pointing s) True)"

definition cell_utctime :: "nb \<Rightarrow> nb \<times> error option" where
  "cell_utctime s =
     (case utctime (col time (dcheck_runsummary s)) of
        Inl e \<Rightarrow> (s, Some e)
      | Inr ut \<Rightarrow> (s\<lparr>v_utctime := ut\<rparr>, None))"

definition cell_plot_pointing :: "nb \<Rightarrow> nb \<times> error option" where
  "cell_plot_pointing s = (s\<lparr>v_mask := mask_pointing s\<rparr>, None)"

definition cell_moon :: "astro \<Rightarrow> nb \<Rightarrow> nb \<times> error option" where
  "cell_moon lib s =
     (s\<lparr>v_mask := mask_pointing s, v_no_moon := no_moon lib (v_utctime s)\<rparr>, None)"

definition cell_moon_fraction :: "astro \<Rightarrow> nb \<Rightarrow> nb \<times> error option" where
  "cell_moon_fraction lib s = (s\<lparr>v_moon_fraction := moon_fraction lib (v_utctime s)\<rparr>, None)"

definition cell_plot_moon :: "nb \<Rightarrow> nb \<times> error option" where
  "cell_plot_moon s =
     (let s1 = s\<lparr>v_mask := vand (mask_pointing s) (v_no_moon s)\<rparr>;
          s2 = s1\<lparr>v_mask := vand (vand (mask_pointing s1) (vnot (v_no_moon s1)))
                                 (vlt (v_moon_fraction s1) moon_fraction_limit)\<rparr>;
          s3 = s2\<lparr>v_mask := vand (vand (mask_pointing s2) (vnot (v_no_moon s2)))
                                 (vnot (vlt (v_moon_fraction s2) moon_fraction_limit))\<rparr>;
          s4 = s3\<lparr>v_mask := vand (mask_pointing s3) (v_no_moon s3)\<rparr>
      in (s4\<lparr>v_mask := vand (mask_pointing s4) (vnot (v_no_moon s4))\<rparr>, None))"

definition cell_ped_std :: "nb \<Rightarrow> nb \<times> error option" where
  "cell_ped_std s =
     (let s1 = s\<lparr>v_ped_std_cut := vlt (col ped_charge_stddev (dcheck_runsummary s)) max_ped_std\<rparr>
      in say s1 (print_runs (dcheck_runsummary s1) (mask_noise s1) False))"

definition cell_rate_cosmics :: "nb \<Rightarrow> nb \<times> error option" where
  "cell_rate_cosmics s =
     (s\<lparr>v_mask := mask_noise s,
        v_rate_cosmics := vdiv (col num_cosmics (dcheck_runsummary s))
                               (col elapsed_time (dcheck_runsummary s))\<rparr>, None)"

definition cell_rate_mask :: "nb \<Rightarrow> nb \<times> error option" where
  "cell_rate_mask s =
     (let s1 = s\<lparr>v_rate_mask := vgt (v_rate_cosmics s) (Fin 3000)\<rparr>
      in say s1 (print_runs (dcheck_runsummary s1) (mask_rate s1) False))"

definition cell_plot_rate :: "nb \<Rightarrow> nb \<times> error option" where
  "cell_plot_rate s = (s\<lparr>v_mask := mask_rate s\<rparr>, None)"

definition cell_pix_rate :: "nb \<Rightarrow> nb \<times> error option" where
  "cell_pix_rate s =
     (let s1 = s\<lparr>v_rate10_mask := rate10_mask (dcheck_runsummary s)\<rparr>;
          s2 = s1\<lparr>v_rate30_mask := rate30_mask (dcheck_runsummary s1)\<rparr>
      in (s2\<lparr>v_pix_rate_mask := vand (v_rate10_mask s2) (v_rate30_mask s2)\<rparr>, None))"

definition cell_report_rates :: "nb \<Rightarrow> nb \<times> error option" where
  "cell_report_rates s =
     (case say s (print_runs (dcheck_runsummary s) (mask_rate s) True) of
        (s1, Some e) \<Rightarrow> (s1, Some e)
      | (s1, None) \<Rightarrow>
          (let s2 = s1\<lparr>stdout := stdout s1 @ [Blank_line, Stars_line, Blank_line]\<rparr>
           in say s2 (print_runs (dcheck_runsummary s2) (mask_selection s2) True)))"

definition cell_plot_selection :: "nb \<Rightarrow> nb \<times> error option" where
  "cell_plot_selection s = (s\<lparr>v_mask := mask_selection s\<rparr>, None)"

definition cell_final :: "nb \<Rightarrow> nb \<times> error option" where
  "cell_final s =
     (let s1 = s\<lparr>v_mask := mask_selection s\<rparr>
      in say s1 (print_runs (dcheck_runsummary s1) (v_mask s1) True))"

definition cell_run_list :: "nb \<Rightarrow> nb \<times> error option" where
  "cell_run_list s =
     (let s1 = s\<lparr>v_mask := mask_selection s\<rparr> in
      case bool_index (col runnumber (dcheck_runsummary s1)) (v_mask s1) of
        Inl e \<Rightarrow> (s1, Some e)
      | Inr rl \<Rightarrow>
          (let s2 = s1\<lparr>v_run_list := rl\<rparr>
           in (s2\<lparr>v_runselection := runselection (dcheck_cosmics s2) (v_run_list s2)\<rparr>, None)))"

definition cell_std_npe :: "nb \<Rightarrow> nb \<times> error option" where
  "cell_std_npe s = (s\<lparr>v_std_npe := std_npe (dcheck_cosmics s) (v_run_list s)\<rparr>, None)"

definition cell_pulse30 :: "nb \<Rightarrow> nb \<times> error option" where
  "cell_pulse30 s =
     (s\<lparr>v_pulse30_std_cut :=
          pulse30_loop (col runnumber (dcheck_runsummary s)) (zip (v_run_list s) (v_std_npe s ! 1))
            (replicate (length (dcheck_runsummary s)) True)\<rparr>, None)"

text \<open>The cells after the loading cell, in the order of the notebook.\<close>

definition selection_cells :: "astro \<Rightarrow> (nb \<Rightarrow> nb \<times> error option) list" where
  "selection_cells lib =
     [cell_ped_ok, cell_source lib, cell_zenith, cell_report_pointing, cell_utctime,
      cell_plot_pointing, cell_plot_pointing, cell_moon lib, cell_moon_fraction lib,
      cell_plot_moon, cell_ped_std, cell_rate_cosmics, cell_rate_cosmics, cell_rate_mask,
      cell_plot_rate, cell_plot_rate, cell_plot_rate, cell_pix_rate, cell_report_rates,
      cell_plot_selection, cell_plot_selection, cell_plot_selection, cell_plot_selection,
      cell_plot_selection, cell_plot_selection, cell_final, cell_run_list, cell_std_npe,
      cell_pulse30]"

text \<open>Running cells in order stops at the first exception.\<close>

fun run_cells :: "(nb \<Rightarrow> nb \<times> error option) list \<Rightarrow> nb \<Rightarrow> nb \<times> error option" where
  "run_cells [] s = (s, None)"
| "run_cells (c # cs) s =
     (case c s of (s1, Some e) \<Rightarrow> (s1, Some e) | (s1, None) \<Rightarrow> run_cells cs s1)"

text \<open>
  The output after a cell, and the state after every cell of a list has run, each on the
  state the one before left (also after an exception).
\<close>

definition cell_out :: "(nb \<Rightarrow> nb \<times> error option) \<Rightarrow> nb \<Rightarrow> out_line list" where
  "cell_out c s = stdout (fst (c s))"

definition steps :: "(nb \<Rightarrow> nb \<times> error option) list \<Rightarrow> nb \<Rightarrow> nb" where
  "steps cs s = foldl (\<lambda>s c. fst (c s)) s cs"

text \<open>The mask variables hold the masks of the table.\<close>

definition synced :: "astro \<Rightarrow> run_row list \<Rightarrow> nb \<Rightarrow> bool" where
  "synced lib tbl s =
     (dcheck_runsummary s = tbl \<and> v_source_mask s = source_mask lib tbl \<and>
      v_zenith_mask s = zenith_mask tbl \<and> v_ped_ok_mask s = ped_ok_mask tbl \<and>
      v_ped_std_cut s = ped_std_cut tbl \<and> v_rate_mask s = rate_mask tbl \<and>
      v_pix_rate_mask s = pix_rate_mask tbl)"

section \<open>Properties of the vectorised operations\<close>

lemma map2_same: "map2 h (map f xs) (map g xs) = map (\<lambda>x. h (f x) (g x)) xs"
  by (induction xs) auto

lemma vand_map: "vand (map p xs) (map q xs) = map (\<lambda>x. p x \<and> q x) xs"
  by (simp add: vand_def map2_same)

lemma select_map: "select (map f xs) (map p xs) = map f (filter p xs)"
  by (induction xs) (auto simp: select_def)

lemma select_rows: "select xs (map p xs) = filter p xs"
  using select_map [of "\<lambda>x. x" xs p] by simp

section \<open>Each mask is a condition on the row\<close>

lemma ped_ok_mask_rows: "ped_ok_mask tbl = map row_ped_ok tbl"
  by (simp add: ped_ok_mask_def np_isfinite_def col_def row_ped_ok_def)

lemma angular_distance_rows: "angular_distance lib tbl = map (distance_deg lib) tbl"
  by (simp add: angular_distance_def col_def map2_same distance_deg_def)

lemma source_mask_rows: "source_mask lib tbl = map (row_source lib) tbl"
  by (auto simp add: source_mask_def angular_distance_rows vgt_def vlt_def vand_map fgt_def
      row_source_def)

lemma zenith_rows: "zenith tbl = map zenith_deg tbl"
  by (simp add: zenith_def np_rad2deg_def col_def zenith_deg_def)

lemma zenith_mask_rows: "zenith_mask tbl = map row_zenith tbl"
  by (auto simp add: zenith_mask_def zenith_rows vgt_def vlt_def vand_map fgt_def row_zenith_def
      min_zenith_def max_zenith_def)

lemma ped_std_cut_rows: "ped_std_cut tbl = map row_ped_std tbl"
  by (simp add: ped_std_cut_def vlt_def col_def row_ped_std_def max_ped_std_def)

lemma rate_cosmics_rows: "rate_cosmics tbl = map cosmics_rate tbl"
  by (simp add: rate_cosmics_def vdiv_def col_def map2_same cosmics_rate_def)

lemma rate_mask_rows: "rate_mask tbl = map row_rate tbl"
  by (simp add: rate_mask_def rate_cosmics_rows vgt_def fgt_def row_rate_def)

lemma pulse_rate_rows:
  "vdiv (vmul (col fraction tbl) (col num_cosmics tbl)) (col elapsed_time tbl) =
   map (pulse_rate fraction) tbl"
  by (simp add: vdiv_def vmul_def col_def map2_same pulse_rate_def)

lemma pix_rate_mask_rows: "pix_rate_mask tbl = map row_pix_rate tbl"
  by (simp add: pix_rate_mask_def rate10_mask_def rate30_mask_def pulse_rate_rows vgt_def
      fgt_def vand_map row_pix_rate_def)

lemma final_mask_rows: "final_mask lib tbl = map (row_selected lib) tbl"
  by (simp add: final_mask_def source_mask_rows zenith_mask_rows ped_ok_mask_rows ped_std_cut_rows
      rate_mask_rows pix_rate_mask_rows vand_map row_selected_def)


section \<open>The run-number line\<close>

lemma printed_runs_append: "printed_runs (a @ b) = printed_runs a @ printed_runs b"
  by (induction a rule: printed_runs.induct) auto

lemma printed_runs_by_date: "printed_runs (by_date_lines ds rs) = []"
proof -
  have "printed_runs (map (\<lambda>(i, d0). Date_line (i + 1) d0 (runs_on ds rs d0)) ps) = []" for ps
    by (induction ps) auto
  then show ?thesis by (simp add: by_date_lines_def)
qed

lemma printed_runs_print_runs:
  assumes "length msk = length tbl"
  shows "printed_runs (fst (print_runs tbl msk b)) = [array2string (select (col runnumber tbl) msk)]"
  using assms
  by (auto simp: print_runs_def bool_index_def col_def Let_def printed_runs_append
      printed_runs_by_date split: sum.splits)

lemma demo_selected: "row_selected demo_astro demo_run"
  by (simp add: row_selected_def row_source_def row_zenith_def row_ped_ok_def row_ped_std_def
      row_rate_def row_pix_rate_def demo_astro_def demo_run_def distance_deg_def zenith_deg_def
      cosmics_rate_def pulse_rate_def fsub_def)

lemma demo_utctime: "utctime (col time [demo_run]) = Inr [1605920000000000]"
  by (simp add: col_def demo_run_def round_half_even_def datetime_min_def datetime_max_def)

section \<open>Adding a mask removes runs\<close>

lemma subseq_select_vand: "subseq (select xs (vand m extra)) (select xs m)"
proof (induction xs arbitrary: m extra)
  case Nil
  then show ?case by (simp add: select_def)
next
  case (Cons x xs)
  show ?case
  proof (cases m)
    case Nil
    then show ?thesis by (simp add: select_def vand_def)
  next
    case (Cons b bs)
    note m = this
    show ?thesis
    proof (cases extra)
      case Nil
      then show ?thesis by (simp add: select_def vand_def)
    next
      case (Cons c cs)
      have ih: "subseq (select xs (vand bs cs)) (select xs bs)" by (rule Cons.IH)
      then show ?thesis using m Cons
        by (auto simp: select_def vand_def)
    qed
  qed
qed

lemma later_in_earlier_step:
  "subseq (run_list tbl (vand m extra)) (run_list tbl m)"
  by (simp add: run_list_def subseq_select_vand)

lemma later_in_earlier_trans:
  "subseq (run_list tbl m) (run_list tbl m') \<Longrightarrow> subseq (run_list tbl (vand m e)) (run_list tbl m')"
  by (blast intro: subseq_order.order_trans later_in_earlier_step)

text \<open>
  C4. The runs that survive a mask conjoined with one more mask are a sublist of the runs
  that survive the mask alone; and of any two reporting steps of the notebook, the run list
  of the later one is a sublist of the run list of the earlier one.
\<close>

theorem successive_masks_monotone:
  "subseq (run_list tbl (vand m extra)) (run_list tbl m) \<and>
   sorted_wrt (\<lambda>a b. subseq (run_list tbl b) (run_list tbl a)) (report_masks lib tbl)"
proof -
  have "sorted_wrt (\<lambda>a b. subseq (run_list tbl b) (run_list tbl a)) (report_masks lib tbl)"
    unfolding report_masks_def final_mask_def
    apply simp
    apply (intro conjI; (rule subseq_order.refl | rule later_in_earlier_trans)+)
    done
  then show ?thesis by (simp add: later_in_earlier_step)
qed

section \<open>The stability cut\<close>

lemma zip_map_self: "zip xs (map h xs) = map (\<lambda>x. (x, h x)) xs"
  by (induction xs) auto

lemma clear_run_map:
  "clear_run (map f xs) run (map g xs) = map (\<lambda>x. if f x = run then False else g x) xs"
  by (simp add: clear_run_def map2_same)

lemma pulse30_loop_map:
  "pulse30_loop (map f xs) ps (map g xs) =
   map (\<lambda>x. g x \<and> \<not> (\<exists>(run, s) \<in> set ps. run = f x \<and> \<not> flt s max_rate30_std)) xs"
proof (induction ps arbitrary: g)
  case Nil
  then show ?case by simp
next
  case (Cons p ps)
  obtain run s where p: "p = (run, s)" by (cases p)
  show ?case
  proof (cases "flt s max_rate30_std")
    case True
    then show ?thesis using Cons.IH [of g] p by auto
  next
    case False
    then show ?thesis using Cons.IH [of "\<lambda>x. if f x = run then False else g x"] p
      by (auto simp: clear_run_map)
  qed
qed

lemma std_npe_30: "std_npe cosm rl ! Suc 0 = map (run_std fraction_pulses_above30 cosm) rl"
  by (simp add: std_npe_def)

lemma pulse30_std_cut_rows:
  "pulse30_std_cut tbl cosm rl =
   map (\<lambda>r. \<not> (runnumber r \<in> set rl \<and>
               \<not> flt (run_std fraction_pulses_above30 cosm (runnumber r)) max_rate30_std)) tbl"
proof -
  have "replicate (length tbl) True = map (\<lambda>r. True) tbl"
    by (simp add: map_replicate_const)
  then have "pulse30_std_cut tbl cosm rl =
        pulse30_loop (map runnumber tbl)
          (map (\<lambda>r. (r, run_std fraction_pulses_above30 cosm r)) rl) (map (\<lambda>r. True) tbl)"
    by (simp add: pulse30_std_cut_def std_npe_30 zip_map_self col_def)
  then show ?thesis
    by (auto simp: pulse30_loop_map)
qed

lemma run_list_map: "run_list tbl (map p tbl) = map runnumber (filter p tbl)"
  by (simp add: run_list_def col_def select_map)

lemma run_list_final: "run_list tbl (final_mask lib tbl) = map runnumber (filter (row_selected lib) tbl)"
  by (simp add: final_mask_rows run_list_map)

text \<open>
  C10, as the notebook has it. For any run list, \<open>pulse30_std_cut\<close> is false exactly on
  the rows whose run number is in the list and whose subrun-wise standard deviation of the
  rate of pulses above 30 p.e. is not below 0.2 (at least 0.2, or \<open>NaN\<close>); on every
  other row it stays true. So conjoined with the final mask it leaves the verdict of every
  row that fails the final mask as it is, and keeps a row that passes it exactly when the
  standard deviation of its run is below 0.2.
\<close>

theorem pulse30_cut_rows:
  "pulse30_std_cut tbl cosm rl =
     map (\<lambda>r. \<not> (runnumber r \<in> set rl \<and>
                 \<not> flt (run_std fraction_pulses_above30 cosm (runnumber r)) max_rate30_std)) tbl \<and>
   vand (final_mask lib tbl) (pulse30_std_cut tbl cosm (run_list tbl (final_mask lib tbl))) =
     map (\<lambda>r. row_selected lib r \<and>
               flt (run_std fraction_pulses_above30 cosm (runnumber r)) max_rate30_std) tbl"
proof -
  have "vand (final_mask lib tbl) (pulse30_std_cut tbl cosm (run_list tbl (final_mask lib tbl))) =
     map (\<lambda>r. row_selected lib r \<and>
               flt (run_std fraction_pulses_above30 cosm (runnumber r)) max_rate30_std) tbl"
    by (auto simp: pulse30_std_cut_rows final_mask_rows vand_map run_list_map)
  then show ?thesis by (simp add: pulse30_std_cut_rows)
qed

lemma demo_nan_std: "run_std fraction_pulses_above30 demo_nan_cosmics 2965 = NaN"
  by (simp add: run_std_def demo_nan_cosmics_def rate_cosmics_pulses_def thisrun_def col_def
      vdiv_def vmul_def select_def np_std_def np_mean_def np_sum_def fsub_def)

text \<open>
  C10 as stated fails: run 2965 is in the surviving list, the standard deviation of its
  rate is \<open>NaN\<close>, which is not at least 0.2, and the cut is false on its row.
\<close>

theorem pulse30_cut_nan_counterexample:
  "run_list [demo_run] (final_mask demo_astro [demo_run]) = [2965] \<and>
   run_std fraction_pulses_above30 demo_nan_cosmics 2965 = NaN \<and>
   \<not> fge NaN max_rate30_std \<and>
   pulse30_std_cut [demo_run] demo_nan_cosmics [2965] = [False]"
proof -
  have "run_list [demo_run] (final_mask demo_astro [demo_run]) = [2965]"
    by (simp add: run_list_final demo_selected) (simp add: demo_run_def)
  moreover have "\<not> fge NaN max_rate30_std"
    by (simp add: fge_def max_rate30_std_def)
  moreover have "pulse30_std_cut [demo_run] demo_nan_cosmics [2965] = [False]"
    by (simp add: pulse30_std_cut_rows demo_nan_std) (simp add: demo_run_def)
  ultimately show ?thesis using demo_nan_std by simp
qed

section \<open>The order of the masks\<close>

lemma vand_commute: "vand a b = vand b a"
proof (induction a arbitrary: b)
  case Nil
  then show ?case by (simp add: vand_def)
next
  case (Cons x a)
  then show ?case by (cases b) (auto simp: vand_def)
qed

lemma vand_assoc: "vand (vand a b) c = vand a (vand b c)"
proof (induction a arbitrary: b c)
  case Nil
  then show ?case by (simp add: vand_def)
next
  case (Cons x a)
  show ?case
  proof (cases b)
    case Nil
    then show ?thesis by (simp add: vand_def)
  next
    case b: (Cons y b')
    show ?thesis
    proof (cases c)
      case Nil
      then show ?thesis by (simp add: vand_def)
    next
      case (Cons z c')
      then show ?thesis using b Cons.IH [of b' c'] by (simp add: vand_def)
    qed
  qed
qed

lemma vand_left_commute: "vand a (vand b c) = vand b (vand a c)"
  by (metis vand_assoc vand_commute)

lemma vand_idem: "vand a a = a"
  by (induction a) (auto simp: vand_def)

lemma vand_left_idem: "vand a (vand a b) = vand a b"
  by (metis vand_assoc vand_idem)

lemma foldl_vand_fold: "foldl vand m ms = fold vand ms m"
  by (induction ms arbitrary: m) (auto simp: vand_commute)

lemma fold_vand_absorb: "x \<in> set ms \<Longrightarrow> fold vand ms (vand x a) = fold vand ms a"
proof (induction ms arbitrary: a)
  case Nil
  then show ?case by simp
next
  case (Cons y ms)
  show ?case
  proof (cases "x = y")
    case True
    then show ?thesis by (simp add: vand_left_idem)
  next
    case False
    with Cons.prems have "x \<in> set ms" by simp
    then have "fold vand ms (vand x (vand y a)) = fold vand ms (vand y a)" by (rule Cons.IH)
    then show ?thesis by (simp add: vand_left_commute [of y x a])
  qed
qed

lemma fold_vand_perm: "mset ms = mset ms' \<Longrightarrow> fold vand ms a = fold vand ms' a"
proof -
  assume "mset ms = mset ms'"
  then have "fold vand ms = fold vand ms'"
    by (rule fold_multiset_equiv [rotated]) (auto simp: fun_eq_iff vand_left_commute)
  then show ?thesis by simp
qed

lemma vand_list_fold: "vand_list (m # ms) = fold vand (m # ms) m"
  by (simp add: foldl_vand_fold vand_idem)

lemma vand_list_perm:
  assumes "mset ms = mset ms'"
  shows "vand_list ms = vand_list ms'"
proof (cases ms)
  case Nil
  then show ?thesis using assms by simp
next
  case (Cons m rest)
  then have "ms' \<noteq> []" using assms by auto
  then obtain m' rest' where ms': "ms' = m' # rest'" by (cases ms') auto
  have sets: "set ms = set ms'" using assms by (rule mset_eq_setD)
  have in1: "m' \<in> set ms" using sets ms' by simp
  have in2: "m \<in> set ms'" using sets Cons by auto
  have "vand_list ms = fold vand ms m" using Cons vand_list_fold by simp
  also have "\<dots> = fold vand ms (vand m' m)" using in1 by (simp add: fold_vand_absorb)
  also have "\<dots> = fold vand ms' (vand m' m)" using assms by (rule fold_vand_perm)
  also have "\<dots> = fold vand ms' (vand m m')" by (simp add: vand_commute)
  also have "\<dots> = fold vand ms' m'" using in2 by (simp add: fold_vand_absorb)
  also have "\<dots> = vand_list ms'" using ms' vand_list_fold by simp
  finally show ?thesis .
qed

lemma select_nth_mem:
  assumes "i < length xs" and "length m = length xs" and "m ! i"
  shows "xs ! i \<in> set (select xs m)"
proof -
  have "zip xs m ! i = (xs ! i, True)" using assms by simp
  moreover have "zip xs m ! i \<in> set (zip xs m)" using assms by (intro nth_mem) simp
  ultimately have "(xs ! i, True) \<in> set (filter snd (zip xs m))" by simp
  then have "fst (xs ! i, True) \<in> fst ` set (filter snd (zip xs m))" by (rule imageI)
  then show ?thesis by (simp add: select_def)
qed

lemma pulse30_after_any_earlier:
  assumes len: "length earlier = length tbl"
    and weaker: "vand (final_mask lib tbl) earlier = final_mask lib tbl"
  shows "vand (final_mask lib tbl) (pulse30_std_cut tbl cosm (run_list tbl earlier)) =
         vand (final_mask lib tbl) (pulse30_std_cut tbl cosm (run_list tbl (final_mask lib tbl)))"
proof -
  have sel: "runnumber r \<in> set (run_list tbl earlier)"
    if r: "r \<in> set tbl" and s: "row_selected lib r" for r
  proof -
    from r obtain i where i: "i < length tbl" and ri: "tbl ! i = r"
      by (auto simp: in_set_conv_nth)
    have "vand (final_mask lib tbl) earlier ! i = final_mask lib tbl ! i" by (simp add: weaker)
    then have "earlier ! i" using i s len ri by (simp add: vand_def final_mask_rows)
    then have "map runnumber tbl ! i \<in> set (select (map runnumber tbl) earlier)"
      using i len by (intro select_nth_mem) simp_all
    then show ?thesis using i ri by (simp add: run_list_def col_def)
  qed
  have a: "vand (final_mask lib tbl) (pulse30_std_cut tbl cosm (run_list tbl earlier)) =
     map (\<lambda>r. row_selected lib r \<and>
               flt (run_std fraction_pulses_above30 cosm (runnumber r)) max_rate30_std) tbl"
    unfolding pulse30_std_cut_rows final_mask_rows vand_map
    by (rule map_cong [OF refl]) (use sel in blast)
  have b: "vand (final_mask lib tbl) (pulse30_std_cut tbl cosm (run_list tbl (final_mask lib tbl))) =
     map (\<lambda>r. row_selected lib r \<and>
               flt (run_std fraction_pulses_above30 cosm (runnumber r)) max_rate30_std) tbl"
    by (auto simp: pulse30_std_cut_rows final_mask_rows vand_map run_list_map)
  show ?thesis by (simp only: a b)
qed

text \<open>
  C2, as the notebook has it. Conjoining the seven masks in any order gives the same mask,
  so the same surviving runs. The six run-level masks are computed from the table alone.
  \<open>pulse30_std_cut\<close> is computed from the run list of the masks applied before it; its
  conjunction with the final mask is the same for the run list of any earlier mask that
  every finally selected row passes.
\<close>

theorem conjunction_order_independent:
  assumes "mset ms = mset (selection_masks lib tbl cosm)"
    and "length earlier = length tbl"
    and "vand (final_mask lib tbl) earlier = final_mask lib tbl"
  shows "vand_list ms = vand_list (selection_masks lib tbl cosm) \<and>
         run_list tbl (vand_list ms) = run_list tbl (vand_list (selection_masks lib tbl cosm)) \<and>
         vand (final_mask lib tbl) (pulse30_std_cut tbl cosm (run_list tbl earlier)) =
         vand (final_mask lib tbl) (pulse30_std_cut tbl cosm (run_list tbl (final_mask lib tbl)))"
  using assms vand_list_perm [of ms "selection_masks lib tbl cosm"]
    pulse30_after_any_earlier [of earlier tbl lib cosm]
  by simp

lemma final_implies_source:
  "vand (final_mask lib tbl) (source_mask lib tbl) = final_mask lib tbl"
  by (auto simp: final_mask_rows source_mask_rows vand_map row_selected_def)

lemma demo_noisy_source: "row_source demo_astro demo_noisy_run"
  by (simp add: row_source_def distance_deg_def demo_astro_def)

lemma demo_noisy_rejected: "\<not> row_selected demo_astro demo_noisy_run"
  by (simp add: row_selected_def row_ped_std_def demo_noisy_run_def)

lemma demo_source: "row_source demo_astro demo_run"
  using demo_selected by (simp add: row_selected_def)

lemma demo_runnumbers: "runnumber demo_run = 2965" "runnumber demo_noisy_run = 2966"
  by (simp_all add: demo_run_def demo_noisy_run_def)

lemma demo_rates:
  "rate_cosmics_pulses fraction_pulses_above30 demo_cosmics = [Fin 5, Fin 0, Fin 1]"
  by (simp add: rate_cosmics_pulses_def demo_cosmics_def col_def vdiv_def vmul_def)

lemma demo_std_stable: "run_std fraction_pulses_above30 demo_cosmics 2965 = Fin 0"
  by (simp add: run_std_def demo_rates)
     (simp add: thisrun_def demo_cosmics_def col_def select_def np_std_def np_mean_def
       np_sum_def fsub_def)

lemma sqrt_quarter: "sqrt (1 / 4) = 1 / 2"
  by (rule real_sqrt_unique) (simp_all add: power2_eq_square)

lemma demo_std_unstable: "run_std fraction_pulses_above30 demo_cosmics 2966 = Fin (1 / 2)"
  by (simp add: run_std_def demo_rates)
     (simp add: thisrun_def demo_cosmics_def col_def select_def np_std_def np_mean_def
       np_sum_def fsub_def sqrt_quarter)

text \<open>
  C2 as stated fails: the pulse-30 mask is not independent of the masks applied before it.
  Computed after the final mask it keeps run 2966, computed after the pointing mask alone
  it removes it.
\<close>

theorem pulse30_depends_on_earlier_masks:
  "pulse30_std_cut demo_table demo_cosmics (run_list demo_table (final_mask demo_astro demo_table))
     = [True, True] \<and>
   pulse30_std_cut demo_table demo_cosmics (run_list demo_table (source_mask demo_astro demo_table))
     = [True, False]"
proof -
  have "run_list demo_table (final_mask demo_astro demo_table) = [2965]"
    by (simp add: final_mask_rows run_list_def select_def col_def demo_table_def demo_selected
        demo_noisy_rejected demo_runnumbers)
  moreover have "run_list demo_table (source_mask demo_astro demo_table) = [2965, 2966]"
    by (simp add: source_mask_rows run_list_def select_def col_def demo_table_def demo_source
        demo_noisy_source demo_runnumbers)
  moreover have "pulse30_std_cut demo_table demo_cosmics [2965] = [True, True]"
    by (simp add: pulse30_std_cut_rows demo_table_def demo_runnumbers demo_std_stable
        max_rate30_std_def)
  moreover have "pulse30_std_cut demo_table demo_cosmics [2965, 2966] = [True, False]"
    by (simp add: pulse30_std_cut_rows demo_table_def demo_runnumbers demo_std_stable
        demo_std_unstable max_rate30_std_def)
  ultimately show ?thesis by simp
qed

theorem conjunction_order_independent_witness:
  "mset (rev (selection_masks demo_astro demo_table demo_cosmics)) =
     mset (selection_masks demo_astro demo_table demo_cosmics) \<and>
   length (source_mask demo_astro demo_table) = length demo_table \<and>
   vand (final_mask demo_astro demo_table) (source_mask demo_astro demo_table) =
     final_mask demo_astro demo_table \<and>
   vand_list (rev (selection_masks demo_astro demo_table demo_cosmics)) =
     vand_list (selection_masks demo_astro demo_table demo_cosmics) \<and>
   run_list demo_table (vand_list (rev (selection_masks demo_astro demo_table demo_cosmics))) =
     run_list demo_table (vand_list (selection_masks demo_astro demo_table demo_cosmics)) \<and>
   vand (final_mask demo_astro demo_table)
     (pulse30_std_cut demo_table demo_cosmics
        (run_list demo_table (source_mask demo_astro demo_table))) =
   vand (final_mask demo_astro demo_table)
     (pulse30_std_cut demo_table demo_cosmics
        (run_list demo_table (final_mask demo_astro demo_table)))"
proof -
  have h1: "mset (rev (selection_masks demo_astro demo_table demo_cosmics)) =
     mset (selection_masks demo_astro demo_table demo_cosmics)" by simp
  have h2: "length (source_mask demo_astro demo_table) = length demo_table"
    by (simp add: source_mask_rows)
  have h3: "vand (final_mask demo_astro demo_table) (source_mask demo_astro demo_table) =
     final_mask demo_astro demo_table" by (rule final_implies_source)
  show ?thesis
    using conjunction_order_independent [OF h1 h2 h3] h1 h2 h3 by simp
qed

section \<open>What \<open>print_runs\<close> prints\<close>

lemma select_map1: "select (map f tbl) msk = map f (select tbl msk)"
proof -
  have "filter snd (zip (map f tbl) msk) = map (\<lambda>(r, b). (f r, b)) (filter snd (zip tbl msk))"
    by (simp add: zip_map1 filter_map comp_def case_prod_beta)
  then show ?thesis by (simp add: select_def comp_def case_prod_beta)
qed

lemma length_select:
  assumes "length msk = length xs"
  shows "length (select xs msk) = mask_sum msk"
  using assms
  by (induction msk xs rule: list_induct2) (auto simp: select_def mask_sum_def)

lemma dates_of_ok:
  assumes "\<forall>t \<in> set ts. utc_date t \<noteq> None"
  shows "dates_of ts = Inr (map (\<lambda>t. the (utc_date t)) ts)"
  using assms
  by (induction ts) (auto simp: utc_date_def split: sum.splits)

lemma dates_of_fail:
  assumes "t \<in> set ts" and "utc_date t = None"
  shows "\<exists>e. dates_of ts = Inl e"
  using assms
  by (induction ts) (auto simp: utc_date_def split: sum.splits)

lemma runs_on_rows:
  "runs_on (map dt rows) (map rn rows) d0 = map rn (filter (\<lambda>r. dt r = d0) rows)"
  by (induction rows) (auto simp: runs_on_def)

lemma np_unique_strict: "sorted_wrt (<) (np_unique xs)"
  by (simp add: np_unique_def strict_sorted_iff sorted_remdups)

lemma set_np_unique: "set (np_unique xs) = set xs"
  by (simp add: np_unique_def)

lemma groups_partition:
  assumes "distinct ds" and "g ` set xs \<subseteq> set ds"
  shows "mset (concat (map (\<lambda>d. map f (filter (\<lambda>x. g x = d) xs)) ds)) = mset (map f xs)"
  using assms(2)
proof (induction xs)
  case Nil
  have "concat (map (\<lambda>d. []) ds) = []" by (induction ds) auto
  then show ?case by simp
next
  case (Cons x xs)
  have ih: "mset (concat (map (\<lambda>d. map f (filter (\<lambda>x. g x = d) xs)) ds)) = mset (map f xs)"
    using Cons by simp
  have in_ds: "g x \<in> set ds" using Cons.prems by simp
  have step: "mset (concat (map (\<lambda>d. map f (filter (\<lambda>y. g y = d) (x # xs))) es)) =
        mset (concat (map (\<lambda>d. map f (filter (\<lambda>y. g y = d) xs)) es)) +
        (if g x \<in> set es then {#f x#} else {#})" if "distinct es" for es
    using that by (induction es) auto
  show ?case using step [OF assms(1)] in_ds ih by simp
qed

lemma half_day: "fmul (Fin 0.5) (Fin 86400) = Fin 43200"
  by simp







lemma print_runs_header_always:
  assumes "length msk = length tbl"
  shows "\<exists>rest err. print_runs tbl msk by_date = (header_lines (select tbl msk) @ rest, err)"
  using assms
  by (auto simp: print_runs_def bool_index_def select_map1 col_def Let_def header_lines_def
      length_select split: sum.splits)

lemma print_runs_by_date:
  assumes len: "length msk = length tbl"
    and ok: "\<forall>r \<in> set (select tbl msk). utc_date (time r) \<noteq> None"
  shows "print_runs tbl msk True =
     (header_lines (select tbl msk) @ [Blank_line, Blank_line] @
      date_lines (select tbl msk)
        (np_unique (map (\<lambda>r. the (utc_date (time r))) (select tbl msk))), None)"
proof -
  let ?rows = "select tbl msk"
  let ?dt = "\<lambda>r. the (utc_date (time r))"
  have d: "dates_of (map time ?rows) = Inr (map ?dt ?rows)"
    using ok dates_of_ok [of "map time ?rows"] by (simp add: comp_def)
  have g: "runs_on (map ?dt ?rows) (map runnumber ?rows) d0 =
           map runnumber (filter (\<lambda>r. utc_date (time r) = Some d0) ?rows)" for d0
  proof -
    have "filter (\<lambda>r. ?dt r = d0) ?rows = filter (\<lambda>r. utc_date (time r) = Some d0) ?rows"
      using ok by (intro filter_cong refl) auto
    then show ?thesis by (simp add: runs_on_rows)
  qed
  have "by_date_lines (map ?dt ?rows) (map runnumber ?rows) =
        date_lines ?rows (np_unique (map ?dt ?rows))"
    by (simp add: by_date_lines_def date_lines_def g)
  then show ?thesis
    using len d
    by (simp add: print_runs_def bool_index_def select_map1 col_def Let_def header_lines_def
        length_select)
qed

lemma print_runs_bad_date:
  assumes len: "length msk = length tbl"
    and bad: "\<exists>r \<in> set (select tbl msk). utc_date (time r) = None"
  shows "\<exists>e. print_runs tbl msk True =
           (header_lines (select tbl msk) @ [Blank_line, Blank_line], Some e)"
proof -
  from bad obtain r where "r \<in> set (select tbl msk)" "utc_date (time r) = None" by blast
  then have "\<exists>e. dates_of (map time (select tbl msk)) = Inl e"
    by (intro dates_of_fail [of "time r"]) auto
  then obtain e where "dates_of (map time (select tbl msk)) = Inl e" by blast
  then have "print_runs tbl msk True =
           (header_lines (select tbl msk) @ [Blank_line, Blank_line], Some e)"
    using len
    by (simp add: print_runs_def bool_index_def select_map1 col_def Let_def header_lines_def
        length_select)
  then show ?thesis by blast
qed

lemma date_groups:
  assumes ok: "\<forall>r \<in> set rows. utc_date (time r) \<noteq> None"
  defines "ds \<equiv> np_unique (map (\<lambda>r. the (utc_date (time r))) rows)"
  shows "sorted_wrt (<) ds"
    and "set ds = {d. \<exists>r \<in> set rows. utc_date (time r) = Some d}"
    and "mset (concat (map (\<lambda>d. map runnumber (filter (\<lambda>r. utc_date (time r) = Some d) rows)) ds)) =
         mset (map runnumber rows)"
proof -
  show "sorted_wrt (<) ds" unfolding ds_def by (rule np_unique_strict)
  show "set ds = {d. \<exists>r \<in> set rows. utc_date (time r) = Some d}"
    unfolding ds_def using ok by (auto simp: set_np_unique image_iff) force
  have dist: "distinct ds" unfolding ds_def
    using np_unique_strict [of "map (\<lambda>r. the (utc_date (time r))) rows"]
    by (simp add: strict_sorted_iff)
  have "mset (concat (map (\<lambda>d. map runnumber
             (filter (\<lambda>r. the (utc_date (time r)) = d) rows)) ds)) = mset (map runnumber rows)"
    by (rule groups_partition [OF dist]) (simp add: ds_def set_np_unique)
  moreover have "filter (\<lambda>r. the (utc_date (time r)) = d) rows =
                 filter (\<lambda>r. utc_date (time r) = Some d) rows" for d
    using ok by (intro filter_cong refl) auto
  ultimately show "mset (concat (map (\<lambda>d. map runnumber
         (filter (\<lambda>r. utc_date (time r) = Some d) rows)) ds)) = mset (map runnumber rows)"
    by simp
qed



lemma mask_sum_all: "mask_sum (replicate n True) = n"
  by (simp add: mask_sum_def)
















section \<open>The final printout\<close>

lemma shown_runs_append: "shown_runs (a @ b) = shown_runs a @ shown_runs b"
  by (induction a rule: shown_runs.induct) auto

lemma shown_runs_header:
  "shown_runs (header_lines rows) = array_items (array2string (map runnumber rows))"
  by (simp add: header_lines_def)

lemma array_items_subset: "set (array_items (array2string a)) \<subseteq> set a"
  by (auto simp: array2string_def dest: in_set_takeD in_set_dropD)

lemma array_items_short: "length a \<le> 1000 \<Longrightarrow> array_items (array2string a) = a"
  by (simp add: array2string_def)

lemma shown_runs_date_lines:
  "shown_runs (date_lines rows ds) =
     concat (map (\<lambda>d. map runnumber (filter (\<lambda>r. utc_date (time r) = Some d) rows)) ds)"
proof -
  have "shown_runs (map (\<lambda>(i, d). Date_line (i + 1) d
            (map runnumber (filter (\<lambda>r. utc_date (time r) = Some d) rows))) ps) =
        concat (map (\<lambda>d. map runnumber (filter (\<lambda>r. utc_date (time r) = Some d) rows)) (map snd ps))"
    for ps :: "(nat \<times> int) list"
    by (induction ps) auto
  from this [of "enumerate 0 ds"] show ?thesis
    by (simp add: date_lines_def)
qed

lemma shown_runs_print_runs:
  assumes len: "length msk = length tbl"
  shows "set (shown_runs (fst (print_runs tbl msk True))) \<subseteq> set (map runnumber (select tbl msk))"
    and "length (select tbl msk) \<le> 1000 \<or> (\<forall>r \<in> set (select tbl msk). utc_date (time r) \<noteq> None)
         \<Longrightarrow> set (shown_runs (fst (print_runs tbl msk True))) = set (map runnumber (select tbl msk))"
proof -
  let ?rows = "select tbl msk"
  let ?ds = "np_unique (map (\<lambda>r. the (utc_date (time r))) ?rows)"
  let ?groups = "concat (map (\<lambda>d. map runnumber (filter (\<lambda>r. utc_date (time r) = Some d) ?rows)) ?ds)"
  have hd: "set (array_items (array2string (map runnumber ?rows))) \<subseteq> set (map runnumber ?rows)"
    by (rule array_items_subset)
  have "set (shown_runs (fst (print_runs tbl msk True))) \<subseteq> set (map runnumber ?rows) \<and>
     (length ?rows \<le> 1000 \<or> (\<forall>r \<in> set ?rows. utc_date (time r) \<noteq> None)
        \<longrightarrow> set (shown_runs (fst (print_runs tbl msk True))) = set (map runnumber ?rows))"
  proof (cases "\<forall>r \<in> set ?rows. utc_date (time r) \<noteq> None")
    case dated: True
    have g: "set ?groups = set (map runnumber ?rows)"
      using date_groups(3) [OF dated] by (metis set_mset_mset)
    have "shown_runs (fst (print_runs tbl msk True)) =
          array_items (array2string (map runnumber ?rows)) @ ?groups"
      by (simp add: print_runs_by_date [OF len dated] shown_runs_append shown_runs_header
          shown_runs_date_lines)
    then show ?thesis using hd g by auto
  next
    case False
    then have undated: "\<exists>r \<in> set ?rows. utc_date (time r) = None" by simp
    from print_runs_bad_date [OF len undated] obtain e where
      "print_runs tbl msk True = (header_lines ?rows @ [Blank_line, Blank_line], Some e)" by blast
    then have sh: "shown_runs (fst (print_runs tbl msk True)) =
          array_items (array2string (map runnumber ?rows))"
      by (simp add: shown_runs_append shown_runs_header)
    show ?thesis
    proof (intro conjI impI)
      show "set (shown_runs (fst (print_runs tbl msk True))) \<subseteq> set (map runnumber ?rows)"
        using hd sh by simp
      assume "length ?rows \<le> 1000 \<or> (\<forall>r \<in> set ?rows. utc_date (time r) \<noteq> None)"
      then have "length ?rows \<le> 1000" using undated by blast
      then show "set (shown_runs (fst (print_runs tbl msk True))) = set (map runnumber ?rows)"
        using sh by (simp add: array_items_short)
    qed
  qed
  then show "set (shown_runs (fst (print_runs tbl msk True))) \<subseteq> set (map runnumber ?rows)"
    and "length ?rows \<le> 1000 \<or> (\<forall>r \<in> set ?rows. utc_date (time r) \<noteq> None)
         \<Longrightarrow> set (shown_runs (fst (print_runs tbl msk True))) = set (map runnumber ?rows)"
    by blast+
qed

text \<open>
  C1, as the notebook has it. The line of run numbers of the final cell is the text of the
  array of the run numbers of the rows that pass the six masks of its expression, in the
  order of the table: pointing, zenith, finite number of pedestals, pedestal noise,
  cosmics rate and pixel rates; it holds all of them when they are at most 1000. Every run
  number that can be read in the final printout is of such a row; and every such run
  number can be read there when these rows are at most 1000 or when each of them has a
  UTC date, so that the lines by date are printed. The moon altitude and illumination and
  the subrun-wise stability of the pixel rates are not among the masks.
\<close>

theorem final_printout_runs:
  "printed_runs (fst (final_cell lib tbl)) =
     [array2string (map runnumber (filter (row_selected lib) tbl))] \<and>
   (length (filter (row_selected lib) tbl) \<le> 1000 \<longrightarrow>
      printed_runs (fst (final_cell lib tbl)) = [Full (map runnumber (filter (row_selected lib) tbl))]) \<and>
   set (shown_runs (fst (final_cell lib tbl))) \<subseteq> set (map runnumber (filter (row_selected lib) tbl)) \<and>
   (length (filter (row_selected lib) tbl) \<le> 1000 \<or>
    (\<forall>r \<in> set (filter (row_selected lib) tbl). utc_date (time r) \<noteq> None) \<longrightarrow>
      set (shown_runs (fst (final_cell lib tbl))) = set (map runnumber (filter (row_selected lib) tbl)))"
proof -
  have len: "length (final_mask lib tbl) = length tbl" by (simp add: final_mask_rows)
  have rows: "select tbl (final_mask lib tbl) = filter (row_selected lib) tbl"
    by (simp add: final_mask_rows select_rows)
  have a: "printed_runs (fst (final_cell lib tbl)) =
     [array2string (map runnumber (filter (row_selected lib) tbl))]"
    using printed_runs_print_runs [OF len, of True]
    by (simp add: final_cell_def col_def select_map1 rows)
  have b: "printed_runs (fst (final_cell lib tbl)) = [Full (map runnumber (filter (row_selected lib) tbl))]"
    if "length (filter (row_selected lib) tbl) \<le> 1000"
    using a that by (simp add: array2string_def)
  have c: "set (shown_runs (fst (final_cell lib tbl))) \<subseteq> set (map runnumber (filter (row_selected lib) tbl))"
    using shown_runs_print_runs(1) [OF len] by (simp add: final_cell_def rows)
  have d: "set (shown_runs (fst (final_cell lib tbl))) = set (map runnumber (filter (row_selected lib) tbl))"
    if "length (filter (row_selected lib) tbl) \<le> 1000 \<or>
        (\<forall>r \<in> set (filter (row_selected lib) tbl). utc_date (time r) \<noteq> None)"
    using shown_runs_print_runs(2) [OF len] that by (simp add: final_cell_def rows)
  show ?thesis using a b c d by blast
qed

lemma demo_table_selected: "filter (row_selected demo_astro) demo_table = [demo_run]"
  by (simp add: demo_table_def demo_selected demo_noisy_rejected)

theorem final_printout_runs_witness:
  "length (filter (row_selected demo_astro) demo_table) \<le> 1000 \<and>
   map runnumber (filter (row_selected demo_astro) demo_table) = [2965] \<and>
   printed_runs (fst (final_cell demo_astro demo_table)) = [Full [2965]] \<and>
   set (shown_runs (fst (final_cell demo_astro demo_table))) = {2965}"
proof -
  note th = final_printout_runs [of demo_astro demo_table]
  have short: "length (filter (row_selected demo_astro) demo_table) \<le> 1000"
    by (simp add: demo_table_selected)
  have runs: "map runnumber (filter (row_selected demo_astro) demo_table) = [2965]"
    by (simp add: demo_table_selected demo_runnumbers)
  have "printed_runs (fst (final_cell demo_astro demo_table)) =
        [Full (map runnumber (filter (row_selected demo_astro) demo_table))]"
    using th short by blast
  moreover have "set (shown_runs (fst (final_cell demo_astro demo_table))) =
        set (map runnumber (filter (row_selected demo_astro) demo_table))"
    using th short by blast
  ultimately show ?thesis using short runs by simp
qed

text \<open>
  C1 as stated fails: the example run is in the final printout, in the line of run numbers
  and in the line of its date, although the moon is above the horizon (\<open>no_moon\<close> is
  false) and its illuminated fraction is not below the limit.
\<close>

theorem final_printout_ignores_moon:
  "utctime (col time [demo_run]) = Inr [1605920000000000] \<and>
   no_moon demo_astro [1605920000000000] = [False] \<and>
   vlt (moon_fraction demo_astro [1605920000000000]) moon_fraction_limit = [False] \<and>
   printed_runs (fst (final_cell demo_astro [demo_run])) = [Full [2965]] \<and>
   shown_runs (fst (final_cell demo_astro [demo_run])) = [2965, 2965]"
proof -
  have m: "final_mask demo_astro [demo_run] = [True]"
    by (simp add: final_mask_rows demo_selected)
  have p: "print_runs [demo_run] [True] True =
     ([Count_line 1, Time_line (Fixed 2) (Fin (1 / 3)), Blank_line, Runs_line (Full [2965]),
       Blank_line, Blank_line, Date_line 1 18586 [2965]], None)"
    by (simp add: print_runs_def bool_index_def Let_def col_def select_def
      demo_run_def mask_sum_def np_sum_def round_half_even_def fsub_def
      datetime_min_def datetime_max_def date_def by_date_lines_def np_unique_def runs_on_def
      enumerate_eq_zip array2string_def)
  have "printed_runs (fst (final_cell demo_astro [demo_run])) = [Full [2965]]"
    by (simp add: final_cell_def m p)
  moreover have "shown_runs (fst (final_cell demo_astro [demo_run])) = [2965, 2965]"
    by (simp add: final_cell_def m p)
  moreover have "no_moon demo_astro [1605920000000000] = [False]"
    by (simp add: no_moon_def vlt_def demo_astro_def)
  moreover have "vlt (moon_fraction demo_astro [1605920000000000]) moon_fraction_limit = [False]"
    by (simp add: moon_fraction_def vlt_def demo_astro_def moon_fraction_limit_def)
  ultimately show ?thesis using demo_utctime by simp
qed

section \<open>Loading\<close>

lemma fix_num_flatfield_rows: "fix_num_flatfield table = map zero_nan_flatfield table"
  by (induction table)
     (simp_all add: fix_num_flatfield_def set_num_flatfield_def np_where_def np_isnan_def col_def
       zero_nan_flatfield_def)

lemma load_file_cases:
  "load_file file acc =
     (if file_skipped file then Inr (appended acc [file])
      else if file_complete file then Inr (appended acc [file])
      else Inl NoSuchNodeError)"
  by (auto simp: load_file_def file_skipped_def file_complete_def appended_def loaded_files_def
      skip_message_def read_table_def split: option.splits)

lemma appended_Cons: "appended (appended acc [file]) files = appended acc (file # files)"
  by (simp add: appended_def loaded_files_def)

lemma load_loop_closed:
  "load_loop files acc =
     (if \<forall>f \<in> set (loaded_files files). file_complete f then Inr (appended acc files)
      else Inl NoSuchNodeError)"
proof (induction files arbitrary: acc)
  case Nil
  then show ?case by (simp add: appended_def loaded_files_def)
next
  case (Cons f fs)
  show ?case
  proof (cases "file_skipped f \<or> file_complete f")
    case True
    then have "load_file f acc = Inr (appended acc [f])" by (auto simp: load_file_cases)
    then have "load_loop (f # fs) acc = load_loop fs (appended acc [f])" by simp
    then show ?thesis using True Cons.IH [of "appended acc [f]"]
      by (auto simp: appended_Cons loaded_files_def)
  next
    case False
    then have "load_file f acc = Inl NoSuchNodeError" by (auto simp: load_file_cases)
    then show ?thesis using False by (auto simp: loaded_files_def)
  qed
qed

lemma load_tables_closed:
  "load_tables files =
     (if \<exists>f \<in> set (loaded_files files). \<not> file_complete f then Inl NoSuchNodeError
      else if loaded_files files = [] then Inl ValueError
      else Inr (stacked files))"
  by (simp add: load_tables_def load_loop_closed stack_tables_def vstack_def appended_def
      no_tables_def stacked_def)

lemma loaded_files_skip:
  "file_skipped file \<Longrightarrow> loaded_files (before @ file # after) = loaded_files (before @ after)"
  by (simp add: loaded_files_def)

lemma load_tables_Inr:
  assumes "load_tables files = Inr T"
  shows "T = stacked files"
  using assms by (simp add: load_tables_closed split: if_splits)

text \<open>
  C8. A file that lacks the pedestals or the flatfield table is skipped whole: loading a
  list of files with it gives the result of loading the list without it, and none of its
  five tables is in any of the stacked tables, which hold the rows of the other loaded
  files only.
\<close>

theorem skipped_file_contributes_nothing:
  assumes "file_skipped skipped"
  shows "load_tables (before @ skipped # after) = load_tables (before @ after) \<and>
         (\<forall>T. load_tables (before @ skipped # after) = Inr T \<longrightarrow>
            dcheck_pixwise_runsummary T =
              concat (map (\<lambda>f. the (pixwise_runsummary f)) (loaded_files (before @ after))) \<and>
            dcheck_runsummary T =
              concat (map (\<lambda>f. fix_num_flatfield (the (runsummary f))) (loaded_files (before @ after))) \<and>
            dcheck_cosmics T = concat (map (\<lambda>f. the (cosmics f)) (loaded_files (before @ after))) \<and>
            dcheck_flatfield T = concat (map (\<lambda>f. the (flatfield f)) (loaded_files (before @ after))) \<and>
            dcheck_pedestals T = concat (map (\<lambda>f. the (pedestals f)) (loaded_files (before @ after))))"
proof -
  have l: "loaded_files (before @ skipped # after) = loaded_files (before @ after)"
    using assms by (rule loaded_files_skip)
  have s: "stacked (before @ skipped # after) = stacked (before @ after)"
    by (simp add: stacked_def l)
  have t: "load_tables (before @ skipped # after) = load_tables (before @ after)"
    by (simp only: load_tables_closed l s)
  have "dcheck_pixwise_runsummary T =
              concat (map (\<lambda>f. the (pixwise_runsummary f)) (loaded_files (before @ after))) \<and>
            dcheck_runsummary T =
              concat (map (\<lambda>f. fix_num_flatfield (the (runsummary f))) (loaded_files (before @ after))) \<and>
            dcheck_cosmics T = concat (map (\<lambda>f. the (cosmics f)) (loaded_files (before @ after))) \<and>
            dcheck_flatfield T = concat (map (\<lambda>f. the (flatfield f)) (loaded_files (before @ after))) \<and>
            dcheck_pedestals T = concat (map (\<lambda>f. the (pedestals f)) (loaded_files (before @ after)))"
    if "load_tables (before @ skipped # after) = Inr T" for T
  proof -
    have "T = stacked (before @ after)" using that load_tables_Inr s by metis
    then show ?thesis by (simp add: stacked_def)
  qed
  then show ?thesis using t by blast
qed

lemma demo_skipped: "file_skipped demo_skipped_file"
  by (simp add: file_skipped_def demo_skipped_file_def)

lemma demo_loaded: "\<not> file_skipped demo_file" "file_complete demo_file"
  by (simp_all add: file_skipped_def file_complete_def demo_file_def)

lemma demo_copy_loaded: "\<not> file_skipped demo_copy_file" "file_complete demo_copy_file"
  by (simp_all add: file_skipped_def file_complete_def demo_file_def demo_copy_file_def)

lemma demo_load: "load_tables [demo_file] = Inr (stacked [demo_file])"
  by (simp add: load_tables_closed loaded_files_def demo_loaded)

lemma demo_stacked_runs:
  "dcheck_runsummary (stacked [demo_file]) = [demo_run\<lparr>num_flatfield := Fin 0\<rparr>, demo_noisy_run]"
  by (simp add: stacked_def loaded_files_def demo_loaded fix_num_flatfield_rows)
     (simp add: demo_file_def zero_nan_flatfield_def demo_noisy_run_def demo_run_def)

theorem skipped_file_contributes_nothing_witness:
  "file_skipped demo_skipped_file \<and>
   load_tables ([demo_file] @ demo_skipped_file # []) = Inr (stacked [demo_file]) \<and>
   load_tables ([demo_file] @ []) = Inr (stacked [demo_file]) \<and>
   dcheck_runsummary (stacked [demo_file]) = [demo_run\<lparr>num_flatfield := Fin 0\<rparr>, demo_noisy_run]"
  using skipped_file_contributes_nothing [OF demo_skipped, of "[demo_file]" "[]"]
    demo_skipped demo_load demo_stacked_runs
  by simp

lemma runnumber_zero_nan: "runnumber (zero_nan_flatfield r) = runnumber r"
  by (simp add: zero_nan_flatfield_def)

lemma runnumbers_fix: "map runnumber (fix_num_flatfield table) = map runnumber table"
  by (simp add: fix_num_flatfield_rows runnumber_zero_nan)

lemma count_list_concat: "count_list (concat xss) n = sum_list (map (\<lambda>xs. count_list xs n) xss)"
  by (induction xss) auto

text \<open>
  C6, as the notebook has it. The stacked runsummary table holds the rows of the runsummary
  tables of the loaded files, in the order of the files: a run number occurs in it as many
  times as in the loaded files together, so in exactly one row when the loaded files record
  the run once. The loading removes no duplicate.
\<close>

theorem runsummary_rows_are_file_rows:
  assumes "load_tables files = Inr T"
  shows "map runnumber (dcheck_runsummary T) =
           concat (map (\<lambda>f. map runnumber (the (runsummary f))) (loaded_files files)) \<and>
         count_list (map runnumber (dcheck_runsummary T)) n =
           sum_list (map (\<lambda>f. count_list (map runnumber (the (runsummary f))) n) (loaded_files files))"
proof -
  have "T = stacked files" using assms by (rule load_tables_Inr)
  then have a: "map runnumber (dcheck_runsummary T) =
           concat (map (\<lambda>f. map runnumber (the (runsummary f))) (loaded_files files))"
    by (simp add: stacked_def map_concat comp_def runnumbers_fix)
  show ?thesis unfolding a by (simp add: count_list_concat comp_def)
qed

theorem runsummary_rows_are_file_rows_witness:
  "load_tables [demo_file] = Inr (stacked [demo_file]) \<and>
   map runnumber (dcheck_runsummary (stacked [demo_file])) =
     concat (map (\<lambda>f. map runnumber (the (runsummary f))) (loaded_files [demo_file])) \<and>
   count_list (map runnumber (dcheck_runsummary (stacked [demo_file]))) 2965 =
     sum_list (map (\<lambda>f. count_list (map runnumber (the (runsummary f))) 2965) (loaded_files [demo_file]))"
  using runsummary_rows_are_file_rows [OF demo_load, of 2965] demo_load by blast

text \<open>
  C6 as stated fails: two files that both record the runs 2965 and 2966 give a table with
  two rows for each.
\<close>

theorem duplicate_runs_counterexample:
  "map_sum id (\<lambda>T. map runnumber (dcheck_runsummary T)) (load_tables [demo_file, demo_copy_file]) =
     Inr [2965, 2966, 2965, 2966]"
proof -
  have "load_tables [demo_file, demo_copy_file] = Inr (stacked [demo_file, demo_copy_file])"
    by (simp add: load_tables_closed loaded_files_def demo_loaded demo_copy_loaded)
  moreover have "map runnumber (dcheck_runsummary (stacked [demo_file, demo_copy_file])) =
      [2965, 2966, 2965, 2966]"
    by (simp add: stacked_def loaded_files_def demo_loaded demo_copy_loaded runnumbers_fix)
       (simp add: demo_copy_file_def demo_file_def demo_runnumbers)
  ultimately show ?thesis by simp
qed

lemma row_selected_zero_nan:
  "row_source lib (zero_nan_flatfield r) = row_source lib r"
  "row_zenith (zero_nan_flatfield r) = row_zenith r"
  "row_ped_ok (zero_nan_flatfield r) = row_ped_ok r"
  "row_ped_std (zero_nan_flatfield r) = row_ped_std r"
  "row_rate (zero_nan_flatfield r) = row_rate r"
  "row_pix_rate (zero_nan_flatfield r) = row_pix_rate r"
  by (simp_all add: zero_nan_flatfield_def row_source_def row_zenith_def row_ped_ok_def
      row_ped_std_def row_rate_def row_pix_rate_def distance_deg_def zenith_deg_def
      cosmics_rate_def pulse_rate_def)

lemma masks_zero_nan:
  "source_mask lib (map zero_nan_flatfield tbl) = source_mask lib tbl"
  "zenith_mask (map zero_nan_flatfield tbl) = zenith_mask tbl"
  "ped_ok_mask (map zero_nan_flatfield tbl) = ped_ok_mask tbl"
  "ped_std_cut (map zero_nan_flatfield tbl) = ped_std_cut tbl"
  "rate_mask (map zero_nan_flatfield tbl) = rate_mask tbl"
  "pix_rate_mask (map zero_nan_flatfield tbl) = pix_rate_mask tbl"
  by (simp_all add: source_mask_rows zenith_mask_rows ped_ok_mask_rows ped_std_cut_rows
      rate_mask_rows pix_rate_mask_rows row_selected_zero_nan)

lemma final_mask_zero_nan: "final_mask lib (map zero_nan_flatfield tbl) = final_mask lib tbl"
  by (simp add: final_mask_def masks_zero_nan)

lemma run_list_zero_nan: "run_list (map zero_nan_flatfield tbl) m = run_list tbl m"
  by (simp add: run_list_def col_def runnumber_zero_nan comp_def)

lemma pulse30_zero_nan:
  "pulse30_std_cut (map zero_nan_flatfield tbl) cosm rl = pulse30_std_cut tbl cosm rl"
  by (simp add: pulse30_std_cut_rows runnumber_zero_nan comp_def)

lemma selection_masks_zero_nan:
  "selection_masks lib (map zero_nan_flatfield tbl) cosm = selection_masks lib tbl cosm"
  by (simp add: selection_masks_def masks_zero_nan final_mask_zero_nan run_list_zero_nan
      pulse30_zero_nan)

lemma no_nan_after_fix: "\<not> isnan (num_flatfield (zero_nan_flatfield r))"
  by (simp add: zero_nan_flatfield_def)

text \<open>
  C9. After loading, no \<open>num_flatfield\<close> is \<open>NaN\<close>: the loaded table is the rows of the
  files with every \<open>NaN\<close> there replaced by 0. No mask reads the column: the seven masks, the
  final mask and the final run list are those of the rows as the files have them, so a run
  whose \<open>num_flatfield\<close> was \<open>NaN\<close> is in the final list exactly when it passes the cuts.
\<close>

theorem num_flatfield_nan_replaced:
  assumes "load_tables files = Inr T"
  shows "(\<forall>r \<in> set (dcheck_runsummary T). \<not> isnan (num_flatfield r)) \<and>
         dcheck_runsummary T =
           map (\<lambda>r. r\<lparr>num_flatfield := (if isnan (num_flatfield r) then Fin 0 else num_flatfield r)\<rparr>)
             (concat (map (\<lambda>f. the (runsummary f)) (loaded_files files))) \<and>
         selection_masks lib (dcheck_runsummary T) cosm =
           selection_masks lib (concat (map (\<lambda>f. the (runsummary f)) (loaded_files files))) cosm \<and>
         final_mask lib (dcheck_runsummary T) =
           final_mask lib (concat (map (\<lambda>f. the (runsummary f)) (loaded_files files))) \<and>
         run_list (dcheck_runsummary T) (final_mask lib (dcheck_runsummary T)) =
           run_list (concat (map (\<lambda>f. the (runsummary f)) (loaded_files files)))
             (final_mask lib (concat (map (\<lambda>f. the (runsummary f)) (loaded_files files))))"
proof -
  let ?raw = "concat (map (\<lambda>f. the (runsummary f)) (loaded_files files))"
  have "T = stacked files" using assms by (rule load_tables_Inr)
  then have t: "dcheck_runsummary T = map zero_nan_flatfield ?raw"
    by (simp add: stacked_def fix_num_flatfield_rows map_concat comp_def)
  have "\<forall>r \<in> set (dcheck_runsummary T). \<not> isnan (num_flatfield r)"
    unfolding t using no_nan_after_fix by auto
  moreover have "map zero_nan_flatfield ?raw =
      map (\<lambda>r. r\<lparr>num_flatfield := (if isnan (num_flatfield r) then Fin 0 else num_flatfield r)\<rparr>) ?raw"
    by (simp add: zero_nan_flatfield_def [abs_def])
  ultimately show ?thesis
    by (simp add: t selection_masks_zero_nan final_mask_zero_nan run_list_zero_nan)
qed

lemma demo_raw_nan: "isnan (num_flatfield (hd (the (runsummary demo_file))))"
  by (simp add: demo_file_def)

theorem num_flatfield_nan_replaced_witness:
  "load_tables [demo_file] = Inr (stacked [demo_file]) \<and>
   isnan (num_flatfield (hd (the (runsummary demo_file)))) \<and>
   map (\<lambda>r. isnan (num_flatfield r)) (dcheck_runsummary (stacked [demo_file])) = [False, False] \<and>
   final_mask demo_astro (dcheck_runsummary (stacked [demo_file])) =
     final_mask demo_astro (concat (map (\<lambda>f. the (runsummary f)) (loaded_files [demo_file]))) \<and>
   run_list (dcheck_runsummary (stacked [demo_file]))
       (final_mask demo_astro (dcheck_runsummary (stacked [demo_file]))) = [2965]"
proof -
  have a: "dcheck_runsummary (stacked [demo_file]) = [demo_run\<lparr>num_flatfield := Fin 0\<rparr>, demo_noisy_run]"
    by (rule demo_stacked_runs)
  have s: "row_selected demo_astro (demo_run\<lparr>num_flatfield := Fin 0\<rparr>)"
    using demo_selected
    by (simp add: row_selected_def row_source_def row_zenith_def row_ped_ok_def row_ped_std_def
      row_rate_def row_pix_rate_def distance_deg_def zenith_deg_def cosmics_rate_def pulse_rate_def)
  have "run_list (dcheck_runsummary (stacked [demo_file]))
       (final_mask demo_astro (dcheck_runsummary (stacked [demo_file]))) = [2965]"
    unfolding a
    by (simp add: final_mask_rows run_list_def select_def col_def s demo_noisy_rejected)
       (simp add: demo_run_def)
  moreover have "map (\<lambda>r. isnan (num_flatfield r)) (dcheck_runsummary (stacked [demo_file])) =
      [False, False]"
    unfolding a by (simp add: demo_noisy_run_def demo_run_def)
  moreover note num_flatfield_nan_replaced [OF demo_load, of demo_astro demo_cosmics,
      THEN conjunct2, THEN conjunct2, THEN conjunct2, THEN conjunct1]
  ultimately show ?thesis
    using demo_load demo_raw_nan by (intro conjI)
qed

text \<open>The conjunctions of masks that the cells write out, over the variables.\<close>

section \<open>The cells only read the tables\<close>

lemma the_tables_say: "the_tables (fst (say s p)) = the_tables s"
  by (simp add: say_def the_tables_def)

lemma cell_keeps_tables:
  "the_tables (fst (cell_ped_ok s)) = the_tables s"
  "the_tables (fst (cell_source lib s)) = the_tables s"
  "the_tables (fst (cell_zenith s)) = the_tables s"
  "the_tables (fst (cell_report_pointing s)) = the_tables s"
  "the_tables (fst (cell_utctime s)) = the_tables s"
  "the_tables (fst (cell_plot_pointing s)) = the_tables s"
  "the_tables (fst (cell_moon lib s)) = the_tables s"
  "the_tables (fst (cell_moon_fraction lib s)) = the_tables s"
  "the_tables (fst (cell_plot_moon s)) = the_tables s"
  "the_tables (fst (cell_ped_std s)) = the_tables s"
  "the_tables (fst (cell_rate_cosmics s)) = the_tables s"
  "the_tables (fst (cell_rate_mask s)) = the_tables s"
  "the_tables (fst (cell_plot_rate s)) = the_tables s"
  "the_tables (fst (cell_pix_rate s)) = the_tables s"
  "the_tables (fst (cell_report_rates s)) = the_tables s"
  "the_tables (fst (cell_plot_selection s)) = the_tables s"
  "the_tables (fst (cell_final s)) = the_tables s"
  "the_tables (fst (cell_run_list s)) = the_tables s"
  "the_tables (fst (cell_std_npe s)) = the_tables s"
  "the_tables (fst (cell_pulse30 s)) = the_tables s"
  by (simp_all add: cell_ped_ok_def cell_source_def cell_zenith_def cell_report_pointing_def
      cell_utctime_def cell_plot_pointing_def cell_moon_def cell_moon_fraction_def
      cell_plot_moon_def cell_ped_std_def cell_rate_cosmics_def cell_rate_mask_def
      cell_plot_rate_def cell_pix_rate_def cell_report_rates_def cell_plot_selection_def
      cell_final_def cell_run_list_def cell_std_npe_def cell_pulse30_def
      say_def the_tables_def Let_def split: sum.splits prod.splits option.splits)

lemma selection_cell_keeps_tables:
  assumes "c \<in> set (selection_cells lib)"
  shows "the_tables (fst (c s)) = the_tables s"
  using assms unfolding selection_cells_def
  by (auto simp: cell_keeps_tables)

lemma run_cells_keeps_tables:
  assumes "\<And>c s. c \<in> set cs \<Longrightarrow> the_tables (fst (c s)) = the_tables s"
  shows "the_tables (fst (run_cells cs s)) = the_tables s"
  using assms
proof (induction cs arbitrary: s)
  case Nil
  then show ?case by simp
next
  case (Cons c cs)
  have c: "the_tables (fst (c s)) = the_tables s" using Cons.prems by simp
  have rest: "the_tables (fst (run_cells cs s1)) = the_tables s1" for s1
    using Cons by simp
  show ?case
  proof (cases "c s")
    case (Pair s1 err)
    then show ?thesis using c rest [of s1] by (cases err) auto
  qed
qed

text \<open>
  C5. No cell after the loading cell changes a table: after the cell, whether it raised or
  not, the runsummary table and the pixel-wise and subrun-wise tables are what they were
  before it; so they are after running the cells in order, up to any cell. The cells
  assign mask variables and print.
\<close>

theorem filters_never_change_tables:
  "(c \<in> set (selection_cells lib) \<longrightarrow> the_tables (fst (c s)) = the_tables s) \<and>
   the_tables (fst (run_cells (selection_cells lib) s)) = the_tables s \<and>
   (\<forall>n. the_tables (fst (run_cells (take n (selection_cells lib)) s)) = the_tables s)"
proof -
  have "the_tables (fst (run_cells (take n (selection_cells lib)) s)) = the_tables s" for n
    by (rule run_cells_keeps_tables) (auto dest: in_set_takeD simp: selection_cell_keeps_tables)
  moreover have "the_tables (fst (run_cells (selection_cells lib) s)) = the_tables s"
    by (rule run_cells_keeps_tables) (simp add: selection_cell_keeps_tables)
  ultimately show ?thesis by (simp add: selection_cell_keeps_tables)
qed

lemma the_tables_loaded: "the_tables (loaded T) = T"
  by (simp add: the_tables_def loaded_def)

lemma cell_ped_ok_listed: "cell_ped_ok \<in> set (selection_cells lib)"
  by (simp add: selection_cells_def)

theorem filters_never_change_tables_witness:
  "cell_ped_ok \<in> set (selection_cells demo_astro) \<and>
   the_tables (fst (cell_ped_ok (loaded (stacked [demo_file])))) = stacked [demo_file] \<and>
   the_tables (fst (run_cells (selection_cells demo_astro) (loaded (stacked [demo_file])))) =
     stacked [demo_file]"
  using filters_never_change_tables [of cell_ped_ok demo_astro "loaded (stacked [demo_file])"]
    cell_ped_ok_listed [of demo_astro]
  by (simp add: the_tables_loaded)

section \<open>The variables of the notebook hold the masks of the table\<close>

text \<open>
  The masks are defined above as functions of the table. These lemmas tie them to the
  cells: after the cells before it, the final cell prints what \<open>final_cell\<close> prints; after
  all cells the variables \<open>mask\<close>, \<open>run_list\<close> and \<open>pulse30_std_cut\<close> hold
  \<open>final_mask\<close>, its run list and \<open>pulse30_std_cut\<close> of that run list.
\<close>

lemma run_cells_steps: "run_cells cs s = (s', None) \<Longrightarrow> s' = steps cs s"
proof (induction cs arbitrary: s)
  case Nil
  then show ?case by (simp add: steps_def)
next
  case (Cons c cs)
  then show ?case
    by (cases "c s") (auto simp: steps_def split: option.splits)
qed

lemma after_ped_ok:
  "fst (cell_ped_ok s) =
     s\<lparr>v_ped_ok_mask := ped_ok_mask (dcheck_runsummary s), stdout := cell_out cell_ped_ok s\<rparr>"
  by (simp add: cell_out_def cell_ped_ok_def ped_ok_mask_def Let_def split: sum.splits)

lemma after_source:
  "fst (cell_source lib s) =
     s\<lparr>v_angular_distance := angular_distance lib (dcheck_runsummary s),
       v_source_mask := source_mask lib (dcheck_runsummary s),
       stdout := cell_out (cell_source lib) s\<rparr>"
  by (simp add: cell_out_def cell_source_def source_mask_def Let_def say_def)

lemma after_zenith:
  "fst (cell_zenith s) =
     s\<lparr>v_zenith_mask := zenith_mask (dcheck_runsummary s), stdout := cell_out cell_zenith s\<rparr>"
  by (simp add: cell_out_def cell_zenith_def)

lemma after_report_pointing:
  "fst (cell_report_pointing s) = s\<lparr>stdout := cell_out cell_report_pointing s\<rparr>"
  by (simp add: cell_out_def cell_report_pointing_def say_def)

lemma after_utctime:
  "fst (cell_utctime s) =
     s\<lparr>v_utctime := (case utctime (col time (dcheck_runsummary s)) of
                        Inl e \<Rightarrow> v_utctime s | Inr ut \<Rightarrow> ut)\<rparr>"
  by (simp add: cell_utctime_def split: sum.splits)

lemma after_plot_pointing:
  "fst (cell_plot_pointing s) = s\<lparr>v_mask := mask_pointing s\<rparr>"
  by (simp add: cell_plot_pointing_def)

lemma after_moon:
  "fst (cell_moon lib s) = s\<lparr>v_mask := mask_pointing s, v_no_moon := no_moon lib (v_utctime s)\<rparr>"
  by (simp add: cell_moon_def)

lemma after_moon_fraction:
  "fst (cell_moon_fraction lib s) = s\<lparr>v_moon_fraction := moon_fraction lib (v_utctime s)\<rparr>"
  by (simp add: cell_moon_fraction_def)

lemma after_plot_moon:
  "fst (cell_plot_moon s) = s\<lparr>v_mask := vand (mask_pointing s) (vnot (v_no_moon s))\<rparr>"
  by (simp add: cell_plot_moon_def Let_def mask_pointing_def)

lemma after_ped_std:
  "fst (cell_ped_std s) =
     s\<lparr>v_ped_std_cut := ped_std_cut (dcheck_runsummary s), stdout := cell_out cell_ped_std s\<rparr>"
  by (simp add: cell_out_def cell_ped_std_def ped_std_cut_def Let_def say_def)

lemma after_rate_cosmics:
  "fst (cell_rate_cosmics s) =
     s\<lparr>v_mask := mask_noise s, v_rate_cosmics := rate_cosmics (dcheck_runsummary s)\<rparr>"
  by (simp add: cell_rate_cosmics_def rate_cosmics_def)

lemma after_rate_mask:
  "fst (cell_rate_mask s) =
     s\<lparr>v_rate_mask := vgt (v_rate_cosmics s) (Fin 3000), stdout := cell_out cell_rate_mask s\<rparr>"
  by (simp add: cell_out_def cell_rate_mask_def Let_def say_def)

lemma after_plot_rate:
  "fst (cell_plot_rate s) = s\<lparr>v_mask := mask_rate s\<rparr>"
  by (simp add: cell_plot_rate_def)

lemma after_pix_rate:
  "fst (cell_pix_rate s) =
     s\<lparr>v_rate10_mask := rate10_mask (dcheck_runsummary s),
       v_rate30_mask := rate30_mask (dcheck_runsummary s),
       v_pix_rate_mask := pix_rate_mask (dcheck_runsummary s)\<rparr>"
  by (simp add: cell_pix_rate_def pix_rate_mask_def Let_def)

lemma after_report_rates:
  "fst (cell_report_rates s) = s\<lparr>stdout := cell_out cell_report_rates s\<rparr>"
  by (simp add: cell_out_def cell_report_rates_def say_def Let_def split: prod.splits option.splits)

lemma after_plot_selection:
  "fst (cell_plot_selection s) = s\<lparr>v_mask := mask_selection s\<rparr>"
  by (simp add: cell_plot_selection_def)

lemma after_final:
  "fst (cell_final s) = s\<lparr>v_mask := mask_selection s, stdout := cell_out cell_final s\<rparr>"
  by (simp add: cell_out_def cell_final_def say_def Let_def)

lemmas after_cell = after_ped_ok after_source after_zenith after_report_pointing after_utctime
  after_plot_pointing after_moon after_moon_fraction after_plot_moon after_ped_std
  after_rate_cosmics after_rate_mask after_plot_rate after_pix_rate after_report_rates
  after_plot_selection after_final

lemma synced_before_final:
  "synced lib (dcheck_runsummary s) (steps (take 25 (selection_cells lib)) s)"
  by (simp add: synced_def steps_def selection_cells_def after_cell rate_mask_def)

lemma after_run_list:
  "fst (cell_run_list s) =
     s\<lparr>v_mask := mask_selection s,
       v_run_list := (case bool_index (col runnumber (dcheck_runsummary s)) (mask_selection s) of
                        Inl e \<Rightarrow> v_run_list s | Inr rl \<Rightarrow> rl),
       v_runselection := (case bool_index (col runnumber (dcheck_runsummary s)) (mask_selection s) of
                        Inl e \<Rightarrow> v_runselection s | Inr rl \<Rightarrow> runselection (dcheck_cosmics s) rl)\<rparr>"
  by (simp add: cell_run_list_def Let_def split: sum.splits)

lemma after_std_npe:
  "fst (cell_std_npe s) = s\<lparr>v_std_npe := std_npe (dcheck_cosmics s) (v_run_list s)\<rparr>"
  by (simp add: cell_std_npe_def)

lemma after_pulse30:
  "fst (cell_pulse30 s) =
     s\<lparr>v_pulse30_std_cut :=
          pulse30_loop (col runnumber (dcheck_runsummary s)) (zip (v_run_list s) (v_std_npe s ! 1))
            (replicate (length (dcheck_runsummary s)) True)\<rparr>"
  by (simp add: cell_pulse30_def)

lemma mask_selection_synced:
  "synced lib tbl s \<Longrightarrow> mask_selection s = final_mask lib tbl"
  by (simp add: synced_def mask_selection_def mask_rate_def mask_noise_def mask_pointing_def
      final_mask_def)

lemma final_cell_of_synced:
  assumes "synced lib tbl s"
  shows "cell_final s = say (s\<lparr>v_mask := final_mask lib tbl\<rparr>) (final_cell lib tbl)"
  using assms mask_selection_synced [OF assms]
  by (simp add: cell_final_def final_cell_def Let_def synced_def)

lemma final_cell_is_26th: "selection_cells lib ! 25 = cell_final"
  by (simp add: selection_cells_def)

lemma final_cell_in_notebook:
  "cell_final (steps (take 25 (selection_cells lib)) s) =
     say ((steps (take 25 (selection_cells lib)) s)\<lparr>v_mask := final_mask lib (dcheck_runsummary s)\<rparr>)
         (final_cell lib (dcheck_runsummary s))"
  by (rule final_cell_of_synced) (rule synced_before_final)

lemma length_final_mask: "length (final_mask lib tbl) = length tbl"
  by (simp add: final_mask_rows)

lemma synced_after_final:
  "synced lib (dcheck_runsummary s) (steps (take 26 (selection_cells lib)) s)"
  by (simp add: synced_def steps_def selection_cells_def after_cell rate_mask_def)

lemma steps_simps: "steps [] s = s" "steps (c # cs) s = steps cs (fst (c s))"
  by (simp_all add: steps_def)

lemma steps_append: "steps (cs @ ds) s = steps ds (steps cs s)"
  by (simp add: steps_def)

lemma selection_cells_split:
  "selection_cells lib =
     take 26 (selection_cells lib) @ [cell_run_list, cell_std_npe, cell_pulse30]"
  by (simp add: selection_cells_def)

lemma notebook_variables:
  fixes s lib
  defines "s' \<equiv> steps (selection_cells lib) s"
  shows "v_mask s' = final_mask lib (dcheck_runsummary s)"
    and "v_run_list s' = run_list (dcheck_runsummary s) (final_mask lib (dcheck_runsummary s))"
    and "v_pulse30_std_cut s' =
           pulse30_std_cut (dcheck_runsummary s) (dcheck_cosmics s)
             (run_list (dcheck_runsummary s) (final_mask lib (dcheck_runsummary s)))"
proof -
  let ?m = "steps (take 26 (selection_cells lib)) s"
  let ?T = "dcheck_runsummary s"
  have sy: "synced lib ?T ?m" by (rule synced_after_final)
  have ms: "mask_selection ?m = final_mask lib ?T" using sy by (rule mask_selection_synced)
  have T: "dcheck_runsummary ?m = ?T" using sy by (simp add: synced_def)
  have C: "dcheck_cosmics ?m = dcheck_cosmics s"
    by (simp add: steps_def selection_cells_def after_cell)
  have bi: "bool_index (col runnumber ?T) (final_mask lib ?T) =
            Inr (run_list ?T (final_mask lib ?T))"
    by (simp add: bool_index_def run_list_def col_def length_final_mask)
  have s': "s' = steps [cell_run_list, cell_std_npe, cell_pulse30] ?m"
    unfolding s'_def by (subst selection_cells_split) (simp only: steps_append)
  show "v_mask s' = final_mask lib ?T"
    unfolding s' by (simp add: steps_simps after_run_list after_std_npe after_pulse30 ms)
  show "v_run_list s' = run_list ?T (final_mask lib ?T)"
    unfolding s' by (simp add: steps_simps after_run_list after_std_npe after_pulse30 ms T bi)
  show "v_pulse30_std_cut s' =
           pulse30_std_cut ?T (dcheck_cosmics s) (run_list ?T (final_mask lib ?T))"
    unfolding s'
    by (simp add: steps_simps after_run_list after_std_npe after_pulse30 ms T C bi
        pulse30_std_cut_def)
qed

end
